theory Spec2Isabelle
  imports Main "HOL-Library.Sublist"
begin

section \<open>Strings\<close>

text \<open>
  JavaScript strings are modelled as \<open>string\<close>. \<open>s.indexOf(p)\<close> is the position of the
  first occurrence of \<open>p\<close> in \<open>s\<close>, or \<open>-1\<close>; the empty string occurs at position 0 of
  every string.
\<close>

fun indexOf :: "string \<Rightarrow> string \<Rightarrow> int" where
  "indexOf [] p = (if p = [] then 0 else - 1)"
| "indexOf (c # cs) p =
     (if prefix p (c # cs) then 0
      else (let r = indexOf cs p in if r < 0 then - 1 else r + 1))"

section \<open>Key Namespacer\<close>

text \<open>
  \<open>_rpfx(hkey)\<close> of the class, with the configured \<open>this.redisHprefix\<close> as first argument
  (the constructor always stores a string there, possibly the empty one).
  \<open>hkey.substring(0, 1) === '{'\<close> is \<open>take 1 hkey = ''{''\<close> and \<open>hkey.substring(1)\<close> is
  \<open>drop 1 hkey\<close>.
\<close>

definition rpfx :: "string \<Rightarrow> string \<Rightarrow> string" where
  "rpfx redisHprefix hkey =
     (let slot_pfx = (if take 1 hkey = ''{'' then ''{'' else '''');
          hkey1 = (if take 1 hkey = ''{'' then drop 1 hkey else hkey)
      in slot_pfx @ (if indexOf hkey1 redisHprefix \<noteq> 0 then redisHprefix else '''') @ hkey1)"

section \<open>JavaScript values, the store connection and batch contexts\<close>

text \<open>
  The values that flow through the library. \<open>JNum n\<close> is the number whose value is the
  integer \<open>n\<close> (cursors, counts and indices); \<open>JNaN\<close> and the two infinities are the other
  numbers that \<open>parseInt\<close> can give. The library passes numbers on and never computes with
  them. Objects (\<open>JObj\<close>) are plain data records, as \<open>JSON.parse\<close> builds them.
  \<open>JFunc n\<close> is the caller's function number \<open>n\<close>; \<open>JBatch n\<close> is the batch context
  (pipeline or transaction) number \<open>n\<close> of the connection; \<open>JCont n\<close> is the closure \<open>f\<close>
  that \<open>rr\<close> builds around the callback \<open>JFunc n\<close>; \<open>JResolve\<close> is the node-style callback
  that \<open>rscan\<close> passes to the connection.
\<close>

datatype jsval =
    JUndefined
  | JNull
  | JBool bool
  | JNum int
  | JNaN
  | JInfinity
  | JNegInfinity
  | JStr string
  | JArr "jsval list"
  | JObj "(string \<times> jsval) list"
  | JFunc nat
  | JBatch nat
  | JCont nat
  | JResolve

fun truthy :: "jsval \<Rightarrow> bool" where
  "truthy JUndefined = False"
| "truthy JNull = False"
| "truthy (JBool b) = b"
| "truthy (JNum n) = (n \<noteq> 0)"
| "truthy JNaN = False"
| "truthy (JStr s) = (s \<noteq> [])"
| "truthy _ = True"

text \<open>\<open>typeof v === 'function'\<close>.\<close>

fun is_function :: "jsval \<Rightarrow> bool" where
  "is_function (JFunc n) = True"
| "is_function (JCont n) = True"
| "is_function JResolve = True"
| "is_function _ = False"

text \<open>\<open>Array.isArray(v) && v.length\<close>.\<close>

fun nonempty_array :: "jsval \<Rightarrow> bool" where
  "nonempty_array (JArr xs) = (xs \<noteq> [])"
| "nonempty_array _ = False"

text \<open>The truthiness of \<open>v.exec\<close> for a truthy \<open>v\<close>: batch contexts expose \<open>exec\<close>.\<close>

fun has_exec :: "jsval \<Rightarrow> bool" where
  "has_exec (JBatch n) = True"
| "has_exec (JObj kvs) = (case map_of kvs ''exec'' of Some v \<Rightarrow> truthy v | None \<Rightarrow> False)"
| "has_exec _ = False"

text \<open>An argument of a spread call \<open>f(...a)\<close>: a missing one is \<open>undefined\<close>.\<close>

definition arg :: "jsval list \<Rightarrow> nat \<Rightarrow> jsval" where
  "arg a i = (if i < length a then a ! i else JUndefined)"

text \<open>
  What is invoked on the connection or on a batch context: \<open>execer[name](args)\<close> or
  \<open>execer.call(name, args)\<close>.
\<close>

datatype invocation =
    Method string "jsval list"
  | RawCall string "jsval list"

record batch =
  transactional :: bool
  queued :: "invocation list"

text \<open>
  The state: the world outside the library (the store and whatever the callers' functions
  touch), the batch contexts created so far (\<open>JBatch n\<close> is the one at position \<open>n\<close>) with
  what has been queued on each, and the invocations made directly on the connection, oldest
  first.
\<close>

record 'w state =
  world :: 'w
  batches :: "batch list"
  issued :: "invocation list"

text \<open>
  The collaborators: the configured prefix, the connection (an invocation is answered with
  an error or a reply), the method names that the connection and its batch contexts have
  beside the ones that the library calls by name, the execution of a batch context, the
  callers' functions, and the built-ins \<open>JSON.parse\<close>, \<open>JSON.stringify\<close>,
  \<open>String.prototype.replace\<close> and \<open>parseInt\<close>.
\<close>

datatype outcome = Returns jsval | Throws jsval | Rejects jsval

record 'w env =
  redisHprefix :: string
  client :: "invocation \<Rightarrow> 'w \<Rightarrow> (jsval + jsval) \<times> 'w"
  other_methods :: "string \<Rightarrow> bool"
  exec :: "batch \<Rightarrow> 'w \<Rightarrow> (jsval + jsval) \<times> 'w"
  apply_fn :: "nat \<Rightarrow> jsval list \<Rightarrow> 'w \<Rightarrow> outcome \<times> 'w"
  JSON_parse :: "string \<Rightarrow> jsval option"
  JSON_stringify :: "jsval \<Rightarrow> jsval"
  replace_star :: "string \<Rightarrow> jsval \<Rightarrow> string"
  parseInt :: "jsval \<Rightarrow> jsval"

text \<open>
  How a call of the library ends: \<open>TypeError\<close> is thrown by the library's own code (a
  method of a value that has none), \<open>SyntaxError\<close> by \<open>JSON.parse\<close>, \<open>Failed e\<close> is a
  rejection or an exception \<open>e\<close> of a collaborator, and \<open>NeverSettles\<close> is a promise that
  is neither resolved nor rejected.
\<close>

datatype error = TypeError | SyntaxError | Failed jsval | NeverSettles

section \<open>Command Dispatcher and Raw Command Router\<close>

text \<open>\<open>_rexec\<close>: the execution target (\<open>None\<close> is \<open>this.redisClient\<close>) and what is left of
  \<open>rest_args\<close> after the \<open>pop\<close>.\<close>

definition rexec :: "jsval list \<Rightarrow> jsval option \<times> jsval list" where
  "rexec rest_args =
     (if rest_args \<noteq> [] \<and> truthy (last rest_args) \<and> has_exec (last rest_args)
      then (Some (last rest_args), butlast rest_args)
      else (None, rest_args))"

text \<open>
  The methods of the connection and of its batch contexts. The connection is an open
  client of \<open>ioredis\<close>: it has the commands that the library calls by name, and the other
  commands that the environment names. \<open>execer[name]\<close> is a function for these names, and
  \<open>execer.call\<close> is always one; any other name is taken to be no member of the target, so
  that calling it throws (the members of a client that are no commands, such as \<open>exec\<close>,
  are not method names of the model).
\<close>

definition library_methods :: "string list" where
  "library_methods =
     [''scan'', ''hscan'', ''zpopmin'', ''spop'', ''del'', ''hdel'', ''hmget'', ''rename'',
      ''zmscore'', ''zscan'', ''sadd'', ''zrange'', ''lpush'']"

definition has_method :: "'w env \<Rightarrow> string \<Rightarrow> bool" where
  "has_method env name = (name \<in> set library_methods \<or> other_methods env name)"

fun callable :: "'w env \<Rightarrow> invocation \<Rightarrow> bool" where
  "callable env (Method name a) = has_method env name"
| "callable env (RawCall name a) = True"

text \<open>
  An invocation on the target. A call of a member that is no function throws. On the
  connection the invocation is executed and logged. On a batch context it is queued, and
  the context itself is returned. Plain data objects and batch contexts that were never
  created have no callable member.
\<close>

definition enqueue :: "nat \<Rightarrow> invocation list \<Rightarrow> 'w state \<Rightarrow> 'w state" where
  "enqueue n q s =
     s\<lparr>batches := (batches s)[n := (batches s ! n)\<lparr>queued := queued (batches s ! n) @ q\<rparr>]\<rparr>"

fun invoke :: "'w env \<Rightarrow> jsval option \<Rightarrow> invocation \<Rightarrow> 'w state \<Rightarrow> (error + jsval) \<times> 'w state" where
  "invoke env None ivc s =
     (if callable env ivc
      then (case client env ivc (world s) of
              (r, w) \<Rightarrow>
                ((case r of Inl e \<Rightarrow> Inl (Failed e) | Inr v \<Rightarrow> Inr v),
                 s\<lparr>world := w, issued := issued s @ [ivc]\<rparr>))
      else (Inl TypeError, s))"
| "invoke env (Some (JBatch n)) ivc s =
     (if callable env ivc \<and> n < length (batches s)
      then (Inr (JBatch n), enqueue n [ivc] s)
      else (Inl TypeError, s))"
| "invoke env (Some v) ivc s = (Inl TypeError, s)"

text \<open>
  \<open>_rraw(redis_method, ...rest_args)\<close>: what it does to \<open>rest_args\<close> once the target is
  taken off (the value of a \<open>JSON\<close> command is encoded, and \<open>JSON.ARRINSERT\<close> gets its
  third and fourth arguments swapped), and the function itself.
\<close>

definition raw_args :: "'w env \<Rightarrow> string \<Rightarrow> jsval list \<Rightarrow> jsval list" where
  "raw_args env redis_method a =
     (let a1 = (if indexOf redis_method ''JSON.'' = 0 \<and> 3 \<le> length a
                   \<and> (a ! 2 \<noteq> JNull \<or> redis_method = ''JSON.SET''
                        \<or> redis_method = ''JSON.ARRINSERT''
                        \<or> redis_method = ''JSON.ARRAPPEND'')
                   \<and> \<not> is_function (a ! 2)
                then a[2 := JSON_stringify env (a ! 2)] else a)
      in if redis_method = ''JSON.ARRINSERT'' \<and> 4 \<le> length a1
         then a1[3 := a1 ! 2, 2 := a1 ! 3] else a1)"

definition rraw :: "'w env \<Rightarrow> string \<Rightarrow> jsval list \<Rightarrow> 'w state \<Rightarrow> (error + jsval) \<times> 'w state" where
  "rraw env redis_method rest_args s =
     (case rexec rest_args of
        (execer, a) \<Rightarrow> invoke env execer (RawCall redis_method (raw_args env redis_method a)) s)"

text \<open>
  The multi-key extension of \<open>_redis_call\<close>: whether the other arguments are namespaced
  too. \<open>hkey.substring\<close> is only reached when there are other arguments, and only a string
  has it.
\<close>

definition same_slot :: "string \<Rightarrow> string \<Rightarrow> bool" where
  "same_slot redis_method h =
     (take 1 h = ''{''
      \<and> (redis_method = ''del''
           \<or> (take 1 redis_method = ''z'' \<and> indexOf redis_method ''store'' \<noteq> - 1)))"

definition same_slot_command :: "string \<Rightarrow> jsval \<Rightarrow> jsval list \<Rightarrow> bool option" where
  "same_slot_command redis_method hkey rest_args =
     (if rest_args = [] then Some False
      else (case hkey of JStr h \<Rightarrow> Some (same_slot redis_method h) | _ \<Rightarrow> None))"

definition rpfx_tagged :: "string \<Rightarrow> jsval \<Rightarrow> jsval" where
  "rpfx_tagged p rest_arg =
     (case rest_arg of
        JStr x \<Rightarrow> (if take 1 x \<noteq> ''{'' then rest_arg else JStr (rpfx p x))
      | _ \<Rightarrow> rest_arg)"

text \<open>
  \<open>_redis_call(redis_method, hkey, ...rest_args)\<close>, on the list of its arguments. The
  method name is a string (only a string is modelled there); a name that is no method of
  the target makes the call throw.
\<close>

definition redis_call :: "'w env \<Rightarrow> jsval list \<Rightarrow> 'w state \<Rightarrow> (error + jsval) \<times> 'w state" where
  "redis_call env a s =
     (case arg a 0 of
        JStr redis_method \<Rightarrow>
          (if indexOf redis_method ''.'' \<noteq> - 1 then rraw env redis_method (arg a 1 # drop 2 a) s
           else (case same_slot_command redis_method (arg a 1) (drop 2 a) of
                   None \<Rightarrow> (Inl TypeError, s)
                 | Some b \<Rightarrow>
                     (case rexec (if b then map (rpfx_tagged (redisHprefix env)) (drop 2 a)
                                  else drop 2 a) of
                        (execer, rest_args) \<Rightarrow>
                          invoke env execer (Method redis_method (arg a 1 # rest_args)) s)))
      | _ \<Rightarrow> (Inl TypeError, s))"

text \<open>
  \<open>rr(redis_method, hkey, ...rest_args)\<close>, on the list of its arguments. Without a
  trailing function the result of \<open>_redis_call\<close> is returned. With one, the promise is
  rejected with the connection's error, resolved with what the callback makes of the reply,
  and never settled when \<open>_redis_call\<close> or the callback throws (the executor is an
  \<open>async\<close> function, and \<open>f\<close> runs as the connection's callback).
\<close>

definition rr :: "'w env \<Rightarrow> jsval list \<Rightarrow> 'w state \<Rightarrow> (error + jsval) \<times> 'w state" where
  "rr env a s =
     (case arg a 1 of
        JStr hkey \<Rightarrow>
          (let hkey1 = JStr (rpfx (redisHprefix env) hkey); rest_args = drop 2 a
           in (case (if rest_args = [] then JNull else last rest_args) of
                 JFunc cb \<Rightarrow>
                   (case redis_call env (arg a 0 # hkey1 # butlast rest_args @ [JCont cb]) s of
                      (Inl e, s1) \<Rightarrow>
                        ((case e of Failed err \<Rightarrow> Inl (Failed err) | _ \<Rightarrow> Inl NeverSettles), s1)
                    | (Inr result, s1) \<Rightarrow>
                        (case apply_fn env cb [result] (world s1) of
                           (Returns v, w) \<Rightarrow> (Inr v, s1\<lparr>world := w\<rparr>)
                         | (Rejects e, w) \<Rightarrow> (Inl (Failed e), s1\<lparr>world := w\<rparr>)
                         | (Throws e, w) \<Rightarrow> (Inl NeverSettles, s1\<lparr>world := w\<rparr>)))
               | _ \<Rightarrow> redis_call env (arg a 0 # hkey1 # rest_args) s))
      | _ \<Rightarrow> (Inl TypeError, s))"

section \<open>Batch Executor\<close>

text \<open>\<open>this.redisClient.pipeline()\<close> and \<open>this.redisClient.multi()\<close>: a fresh, empty batch
  context.\<close>

definition create_batch :: "bool \<Rightarrow> 'w state \<Rightarrow> nat \<times> 'w state" where
  "create_batch multi s =
     (length (batches s), s\<lparr>batches := batches s @ [\<lparr>transactional = multi, queued = []\<rparr>]\<rparr>)"

text \<open>The first statement of the loop body: \<open>if (commands[i].length > 1) commands[i][1] =
  this._rpfx(commands[i][1])\<close>; \<open>None\<close> is the \<open>TypeError\<close> of a key that is no string.\<close>

definition prefix_key :: "string \<Rightarrow> jsval list \<Rightarrow> jsval list option" where
  "prefix_key p c =
     (if 1 < length c
      then (case c ! 1 of JStr k \<Rightarrow> Some (c[1 := JStr (rpfx p k)]) | _ \<Rightarrow> None)
      else Some c)"

text \<open>
  The loop of \<open>rpipemulti\<close> and \<open>rpipemulti2array\<close> over \<open>commands\<close>. The descriptors are
  arrays of the caller, changed in place: the result carries the exception thrown, if any,
  the descriptors as the loop leaves them, and the state. A rejected promise of
  \<open>_redis_call\<close> is not awaited and does not stop the loop.
\<close>

fun queue_commands ::
  "'w env \<Rightarrow> nat \<Rightarrow> jsval list list \<Rightarrow> 'w state \<Rightarrow> error option \<times> jsval list list \<times> 'w state" where
  "queue_commands env rpipe [] s = (None, [], s)"
| "queue_commands env rpipe (c # cs) s =
     (case prefix_key (redisHprefix env) c of
        None \<Rightarrow> (Some TypeError, c # cs, s)
      | Some c1 \<Rightarrow>
          (case redis_call env (c1 @ [JBatch rpipe]) s of
             (r, s1) \<Rightarrow>
               (if r = Inl TypeError then (Some TypeError, (c1 @ [JBatch rpipe]) # cs, s1)
                else (case queue_commands env rpipe cs s1 of
                        (e, cs1, s2) \<Rightarrow> (e, (c1 @ [JBatch rpipe]) # cs1, s2)))))"

text \<open>\<open>rpipe.exec()\<close> on the batch context number \<open>rpipe\<close>.\<close>

definition exec_batch :: "'w env \<Rightarrow> nat \<Rightarrow> 'w state \<Rightarrow> (error + jsval) \<times> 'w state" where
  "exec_batch env rpipe s =
     (case exec env (batches s ! rpipe) (world s) of
        (r, w) \<Rightarrow> ((case r of Inl e \<Rightarrow> Inl (Failed e) | Inr v \<Rightarrow> Inr v), s\<lparr>world := w\<rparr>))"

text \<open>A call of a value as the connection's callback: its result is dropped.\<close>

definition call_back :: "'w env \<Rightarrow> jsval \<Rightarrow> jsval list \<Rightarrow> 'w state \<Rightarrow> 'w state" where
  "call_back env f args s =
     (case f of JFunc n \<Rightarrow> s\<lparr>world := snd (apply_fn env n args (world s))\<rparr> | _ \<Rightarrow> s)"

text \<open>
  The head of \<open>rpipemulti(commands, arg2, cb)\<close>: whether the batch is a transaction, and
  the callback that is left.
\<close>

definition batch_type_multi :: "jsval \<Rightarrow> bool" where
  "batch_type_multi arg2 = (truthy arg2 \<and> \<not> is_function arg2 \<and> arg2 = JStr ''t'')"

definition batch_callback :: "jsval \<Rightarrow> jsval \<Rightarrow> jsval" where
  "batch_callback arg2 cb =
     (if truthy arg2
      then (if is_function arg2 then arg2
            else (if truthy cb \<and> \<not> is_function cb then JNull else cb))
      else cb)"

text \<open>
  \<open>rpipemulti(commands, arg2, cb)\<close>: the result, the descriptors as the call leaves them,
  and the state.
\<close>

definition rpipemulti ::
  "'w env \<Rightarrow> jsval list list \<Rightarrow> jsval \<Rightarrow> jsval \<Rightarrow> 'w state
     \<Rightarrow> (error + jsval) \<times> jsval list list \<times> 'w state" where
  "rpipemulti env commands arg2 cb s =
     (case create_batch (batch_type_multi arg2) s of
        (rpipe, s0) \<Rightarrow>
          (case queue_commands env rpipe commands s0 of
             (Some e, commands1, s1) \<Rightarrow> (Inl e, commands1, s1)
           | (None, commands1, s1) \<Rightarrow>
               (case exec_batch env rpipe s1 of
                  (r, s2) \<Rightarrow>
                    (if truthy (batch_callback arg2 cb)
                     then (r, commands1,
                           call_back env (batch_callback arg2 cb)
                             [case r of Inl (Failed e) \<Rightarrow> e | _ \<Rightarrow> JNull,
                              case r of Inr v \<Rightarrow> v | _ \<Rightarrow> JUndefined] s2)
                     else (r, commands1, s2)))))"

text \<open>\<open>r[1]\<close>; \<open>None\<close> is the \<open>TypeError\<close> of reading a property of \<open>null\<close> or
  \<open>undefined\<close>.\<close>

fun index1 :: "jsval \<Rightarrow> jsval option" where
  "index1 JUndefined = None"
| "index1 JNull = None"
| "index1 (JArr xs) = Some (if 1 < length xs then xs ! 1 else JUndefined)"
| "index1 (JStr cs) = Some (if 1 < length cs then JStr [cs ! 1] else JUndefined)"
| "index1 (JObj kvs) = Some (case map_of kvs ''1'' of Some v \<Rightarrow> v | None \<Rightarrow> JUndefined)"
| "index1 _ = Some JUndefined"

text \<open>\<open>ret.map((r) => r[1])\<close>.\<close>

fun map_index1 :: "jsval list \<Rightarrow> jsval list option" where
  "map_index1 [] = Some []"
| "map_index1 (r # rs) =
     (case index1 r of
        None \<Rightarrow> None
      | Some v \<Rightarrow> (case map_index1 rs of None \<Rightarrow> None | Some vs \<Rightarrow> Some (v # vs)))"

text \<open>\<open>rpipemulti2array(commands)\<close>.\<close>

definition rpipemulti2array ::
  "'w env \<Rightarrow> jsval list list \<Rightarrow> 'w state \<Rightarrow> (error + jsval) \<times> jsval list list \<times> 'w state" where
  "rpipemulti2array env commands s =
     (case create_batch False s of
        (rpipe, s0) \<Rightarrow>
          (case queue_commands env rpipe commands s0 of
             (Some e, commands1, s1) \<Rightarrow> (Inl e, commands1, s1)
           | (None, commands1, s1) \<Rightarrow>
               (case exec_batch env rpipe s1 of
                  (Inl e, s2) \<Rightarrow> (Inl e, commands1, s2)
                | (Inr ret, s2) \<Rightarrow>
                    (if \<not> nonempty_array ret then (Inr ret, commands1, s2)
                     else (case ret of
                             JArr rs \<Rightarrow>
                               (case map_index1 rs of
                                  None \<Rightarrow> (Inl TypeError, commands1, s2)
                                | Some vs \<Rightarrow> (Inr (JArr vs), commands1, s2))
                           | _ \<Rightarrow> (Inr ret, commands1, s2))))))"

text \<open>\<open>rpipemaybe(commands)\<close>: the one descriptor is spread into \<open>rr\<close> and stays as it
  is.\<close>

definition rpipemaybe ::
  "'w env \<Rightarrow> jsval list list \<Rightarrow> 'w state \<Rightarrow> (error + jsval) \<times> jsval list list \<times> 'w state" where
  "rpipemaybe env commands s =
     (if length commands = 1
      then (case rr env (commands ! 0) s of (r, s1) \<Rightarrow> (r, commands, s1))
      else rpipemulti env commands JUndefined JUndefined s)"

section \<open>Scan Iterator\<close>

text \<open>
  The options of \<open>rscan\<close>. The flags are only tested for truthiness; \<open>opts.cursor\<close> and
  \<open>opts.count\<close> are numbers, and an absent one, \<open>NaN\<close> and \<open>0\<close> all behave as \<open>0\<close>.
\<close>

record scan_opts =
  opt_return :: bool
  opt_return_cursor :: bool
  opt_one :: bool
  opt_cursor :: int
  opt_cb_all :: bool
  opt_count :: int

text \<open>
  The head of \<open>rscan(ptn, cb, hkey, opts)\<close>, before the loop. \<open>ptn\<close> and \<open>hkey\<close> are strings,
  the empty one standing for an absent one. The result is \<open>params\<close>, with the namespaced
  hash key first when there is one (the primitive is then \<open>hscan\<close>).
\<close>

definition scan_params :: "string \<Rightarrow> string \<Rightarrow> string \<Rightarrow> scan_opts \<Rightarrow> jsval list" where
  "scan_params p ptn hkey opts =
     (let ptn1 = (if hkey \<noteq> [] then ptn else if ptn \<noteq> [] then rpfx p ptn else ptn)
      in (if hkey \<noteq> [] then [JStr (rpfx p hkey)] else [])
         @ [JNum (opt_cursor opts)]
         @ (if ptn1 \<noteq> [] then [JStr ''MATCH'', JStr ptn1] else [])
         @ (if opt_count opts \<noteq> 0 then [JStr ''COUNT'', JNum (opt_count opts)] else []))"

text \<open>
  The inner loop \<open>while (result[1].length) { cb(...result[1].splice(-num_params)) }\<close>: the
  callback gets the last group of the batch, awaited, until the batch is empty. An
  exception or a rejection of the callback ends \<open>rscan\<close>.
\<close>

fun consume_groups ::
  "'w env \<Rightarrow> nat \<Rightarrow> bool \<Rightarrow> jsval list \<Rightarrow> 'w state \<Rightarrow> error option \<times> 'w state" where
  "consume_groups env cb hscan items s =
     (if items = [] then (None, s)
      else (case apply_fn env cb (drop (length items - (if hscan then 2 else 1)) items) (world s) of
              (Returns v, w) \<Rightarrow>
                consume_groups env cb hscan
                  (take (length items - (if hscan then 2 else 1)) items) (s\<lparr>world := w\<rparr>)
            | (Throws e, w) \<Rightarrow> (Some (Failed e), s\<lparr>world := w\<rparr>)
            | (Rejects e, w) \<Rightarrow> (Some (Failed e), s\<lparr>world := w\<rparr>)))"

declare consume_groups.simps [simp del]

text \<open>
  The consumption of one round's batch \<open>result[1]\<close>: by the callback, or into the
  accumulator \<open>keys\<close>.
\<close>

definition consume_round ::
  "'w env \<Rightarrow> jsval \<Rightarrow> bool \<Rightarrow> scan_opts \<Rightarrow> jsval list \<Rightarrow> jsval list \<Rightarrow> 'w state
     \<Rightarrow> error option \<times> jsval list \<times> 'w state" where
  "consume_round env cb hscan opts items keys s =
     (case cb of
        JFunc f \<Rightarrow>
          (if opt_cb_all opts
           then (case apply_fn env f [JArr items] (world s) of
                   (Returns v, w) \<Rightarrow> (None, keys, s\<lparr>world := w\<rparr>)
                 | (Throws e, w) \<Rightarrow> (Some (Failed e), keys, s\<lparr>world := w\<rparr>)
                 | (Rejects e, w) \<Rightarrow> (Some (Failed e), keys, s\<lparr>world := w\<rparr>))
           else (case consume_groups env f hscan items s of (e, s1) \<Rightarrow> (e, keys, s1)))
      | _ \<Rightarrow> (None, if opt_return opts then keys @ items else keys, s))"

text \<open>\<open>return opts.return_cursor ? [i, keys] : keys\<close>.\<close>

definition scan_result :: "scan_opts \<Rightarrow> jsval \<Rightarrow> jsval list \<Rightarrow> jsval" where
  "scan_result opts i keys = (if opt_return_cursor opts then JArr [i, JArr keys] else JArr keys)"

text \<open>
  One round of the loop of \<open>rscan\<close>: either the loop ends with a result, or it goes on with
  new \<open>params\<close>, cursor \<open>i\<close> and \<open>keys\<close>. The connection's error is dropped by the callback
  \<open>(_err, _result) => resolve(_result)\<close>, which leaves \<open>undefined\<close>. The new cursor is what
  the built-in \<open>parseInt\<close> makes of the first element of the reply.
\<close>

datatype 'w round =
    Stop "error + jsval" "'w state"
  | Again "jsval list" jsval "jsval list" "'w state"

definition scan_round ::
  "'w env \<Rightarrow> jsval \<Rightarrow> bool \<Rightarrow> scan_opts \<Rightarrow> jsval list \<Rightarrow> jsval \<Rightarrow> jsval list \<Rightarrow> 'w state
     \<Rightarrow> 'w round" where
  "scan_round env cb hscan opts params i keys s =
     (case invoke env None (Method (if hscan then ''hscan'' else ''scan'') (params @ [JResolve])) s of
        (r, s1) \<Rightarrow>
          (case (case r of Inl e \<Rightarrow> JUndefined | Inr v \<Rightarrow> v) of
             JArr (r0 # rs) \<Rightarrow>
               (let i1 = parseInt env r0;
                    params1 = params[(if hscan then 1 else 0) := i1]
                in (case (if rs \<noteq> [] \<and> nonempty_array (hd rs)
                          then (case hd rs of
                                  JArr items \<Rightarrow> consume_round env cb hscan opts items keys s1
                                | _ \<Rightarrow> (None, keys, s1))
                          else (None, keys, s1)) of
                      (Some e, keys1, s2) \<Rightarrow> Stop (Inl e) s2
                    | (None, keys1, s2) \<Rightarrow>
                        (if \<not> truthy i1 \<or> opt_one opts
                         then Stop (Inr (scan_result opts i1 keys1)) s2
                         else Again params1 i1 keys1 s2)))
           | _ \<Rightarrow> Stop (Inr (scan_result opts i keys)) s1))"

text \<open>The loop \<open>while (true)\<close> of \<open>rscan\<close>; it need not end.\<close>

partial_function (option) scan_loop ::
  "'w env \<Rightarrow> jsval \<Rightarrow> bool \<Rightarrow> scan_opts \<Rightarrow> jsval list \<Rightarrow> jsval \<Rightarrow> jsval list \<Rightarrow> 'w state
     \<Rightarrow> ((error + jsval) \<times> 'w state) option" where
  "scan_loop env cb hscan opts params i keys s =
     (case scan_round env cb hscan opts params i keys s of
        Stop r s1 \<Rightarrow> Some (r, s1)
      | Again params1 i1 keys1 s1 \<Rightarrow> scan_loop env cb hscan opts params1 i1 keys1 s1)"

text \<open>\<open>rscan(ptn, cb, hkey, opts)\<close>; \<open>None\<close> when the enumeration never ends.\<close>

definition rscan ::
  "'w env \<Rightarrow> string \<Rightarrow> jsval \<Rightarrow> string \<Rightarrow> scan_opts \<Rightarrow> 'w state
     \<Rightarrow> ((error + jsval) \<times> 'w state) option" where
  "rscan env ptn cb hkey opts s =
     scan_loop env cb (hkey \<noteq> []) opts (scan_params (redisHprefix env) ptn hkey opts)
       (JNum (opt_cursor opts)) [] s"

section \<open>Bulk Purger: draining a collection\<close>

text \<open>\<open>_keys.filter((x, y) => !(y % 2))\<close>: the elements at the even positions.\<close>

fun even_positions :: "'a list \<Rightarrow> 'a list" where
  "even_positions [] = []"
| "even_positions [x] = [x]"
| "even_positions (x # y # zs) = x # even_positions zs"

text \<open>The descriptors \<open>['del', ptn ? ptn.replace('*', _key) : _key]\<close> of one chunk.\<close>

definition del_commands :: "'w env \<Rightarrow> string \<Rightarrow> jsval list \<Rightarrow> jsval list list" where
  "del_commands env ptn ks =
     map (\<lambda>k. [JStr ''del'', if ptn \<noteq> [] then JStr (replace_star env ptn k) else k]) ks"

text \<open>
  \<open>rdel_from_set(keys_set, is_sorted, ptn)\<close>, with \<open>ptn\<close> the empty string when absent;
  \<open>None\<close> when the collection never runs empty.
\<close>

partial_function (option) rdel_from_set ::
  "'w env \<Rightarrow> string \<Rightarrow> bool \<Rightarrow> string \<Rightarrow> 'w state \<Rightarrow> ((error + jsval) \<times> 'w state) option" where
  "rdel_from_set env keys_set is_sorted ptn s =
     (case rr env [JStr (if is_sorted then ''zpopmin'' else ''spop''), JStr keys_set, JNum 500] s of
        (Inl e, s1) \<Rightarrow> Some (Inl e, s1)
      | (Inr ks, s1) \<Rightarrow>
          (case ks of
             JArr (k # ks1) \<Rightarrow>
               (case rpipemulti env
                       (del_commands env ptn
                          (if is_sorted then even_positions (k # ks1) else k # ks1))
                       JUndefined JUndefined s1 of
                  (Inl e, commands, s2) \<Rightarrow> Some (Inl e, s2)
                | (Inr v, commands, s2) \<Rightarrow> rdel_from_set env keys_set is_sorted ptn s2)
           | _ \<Rightarrow> Some (Inr JUndefined, s1)))"

section \<open>Document Path Accessor\<close>

text \<open>\<open>_rjpath(path)\<close>, on a string (the empty one is falsy).\<close>

definition rjpath :: "string \<Rightarrow> string" where
  "rjpath path =
     (if path = [] \<or> path = ''$'' then ''$''
      else if take 2 path \<noteq> ''$.'' then ''$.'' @ path
      else path)"

text \<open>
  The option tokens of \<open>rjget\<close>, scanned out of \<open>rest_args\<close> in the order \<open>rerun\<close>,
  \<open>keep_array\<close>, \<open>empty_array_null\<close>: each is set when the token occurs, and its first
  occurrence is removed.
\<close>

record get_opts =
  rerun :: bool
  keep_array :: bool
  empty_array_null :: bool

definition get_options :: "jsval list \<Rightarrow> get_opts" where
  "get_options rest_args =
     \<lparr>rerun = (JStr ''rerun'' \<in> set rest_args),
      keep_array = (JStr ''keep_array'' \<in> set rest_args),
      empty_array_null = (JStr ''empty_array_null'' \<in> set rest_args)\<rparr>"

definition remaining_args :: "jsval list \<Rightarrow> jsval list" where
  "remaining_args rest_args =
     remove1 (JStr ''empty_array_null'')
       (remove1 (JStr ''keep_array'') (remove1 (JStr ''rerun'') rest_args))"

text \<open>
  The body of \<open>rjget\<close> from the read of the document to the end of the option handling
  (the value of \<open>res\<close> before the fallback protocol). \<open>parseJson(res, res)\<close> is
  \<open>JSON.parse(res)\<close> on a string, which throws on a text that is no JSON.
\<close>

definition rjget_res ::
  "'w env \<Rightarrow> string \<Rightarrow> string \<Rightarrow> jsval \<Rightarrow> get_opts \<Rightarrow> 'w state \<Rightarrow> (error + jsval) \<times> 'w state" where
  "rjget_res env hkey path callback opts s =
     (case rraw env ''JSON.GET'' [JStr hkey, JStr path] s of
        (Inl e, s1) \<Rightarrow> (Inl e, s1)
      | (Inr res, s1) \<Rightarrow>
          (if res = JNull then (Inr JNull, s1)
           else (case (case res of JStr t \<Rightarrow> JSON_parse env t | _ \<Rightarrow> Some res) of
                   None \<Rightarrow> (Inl SyntaxError, s1)
                 | Some res1 \<Rightarrow>
                     (let res2 = (if empty_array_null opts \<and> res1 = JArr [] then JNull else res1)
                      in if res2 = JNull then (Inr JNull, s1)
                         else (let res3 = (case res2 of
                                             JArr [x] \<Rightarrow> (if keep_array opts then res2 else x)
                                           | _ \<Rightarrow> res2)
                               in (case callback of
                                     JFunc f \<Rightarrow>
                                       (case apply_fn env f [res3] (world s1) of
                                          (Returns v, w) \<Rightarrow> (Inr v, s1\<lparr>world := w\<rparr>)
                                        | (Throws e, w) \<Rightarrow> (Inl (Failed e), s1\<lparr>world := w\<rparr>)
                                        | (Rejects e, w) \<Rightarrow> (Inl (Failed e), s1\<lparr>world := w\<rparr>))
                                   | _ \<Rightarrow> (Inr res3, s1)))))))"

text \<open>
  \<open>rjget(hkey, path, callback, ...rest_args)\<close>. The fallback is called when \<open>res\<close> is
  \<open>null\<close> and the first remaining argument is a function of the caller; with \<open>rerun\<close> the
  function calls itself with the namespaced key, the normalised path and the callback, and
  without trailing arguments.
\<close>

function rjget ::
  "'w env \<Rightarrow> string \<Rightarrow> string \<Rightarrow> jsval \<Rightarrow> jsval list \<Rightarrow> 'w state \<Rightarrow> (error + jsval) \<times> 'w state" where
  "rjget env hkey path callback rest_args s =
     (case rjget_res env (rpfx (redisHprefix env) hkey) (rjpath path) callback
             (get_options rest_args) s of
        (Inl e, s1) \<Rightarrow> (Inl e, s1)
      | (Inr res, s1) \<Rightarrow>
          (if res \<noteq> JNull \<or> remaining_args rest_args = [] then (Inr res, s1)
           else (case hd (remaining_args rest_args) of
                   JFunc f \<Rightarrow>
                     (case apply_fn env f [JStr (rpfx (redisHprefix env) hkey), JStr (rjpath path)]
                             (world s1) of
                        (Returns ret, w) \<Rightarrow>
                          (if rerun (get_options rest_args)
                           then rjget env (rpfx (redisHprefix env) hkey) (rjpath path) callback []
                                  (s1\<lparr>world := w\<rparr>)
                           else (Inr ret, s1\<lparr>world := w\<rparr>))
                      | (Throws e, w) \<Rightarrow> (Inl (Failed e), s1\<lparr>world := w\<rparr>)
                      | (Rejects e, w) \<Rightarrow> (Inl (Failed e), s1\<lparr>world := w\<rparr>))
                 | _ \<Rightarrow> (Inr JNull, s1))))"
  by pat_completeness auto
termination
  by (relation "measure (\<lambda>(env, hkey, path, callback, rest_args, s). length rest_args)")
     (auto simp: remaining_args_def)

declare rjget.simps [simp del]

section \<open>Command descriptors\<close>

text \<open>
  A command descriptor as the callers build it: the method name, the key, then the
  arguments, with a string for the method name and for the key.
\<close>

definition descriptor :: "jsval list \<Rightarrow> bool" where
  "descriptor c = (case c of JStr m # JStr k # args \<Rightarrow> True | _ \<Rightarrow> False)"

text \<open>A descriptor with the key at index 1 namespaced.\<close>

definition key_prefixed :: "string \<Rightarrow> jsval list \<Rightarrow> jsval list" where
  "key_prefixed p c = (case arg c 1 of JStr k \<Rightarrow> c[1 := JStr (rpfx p k)] | _ \<Rightarrow> c)"

text \<open>
  The method of a descriptor can be called on a batch context: a dotted name goes through
  \<open>call\<close>, another name is a method.
\<close>

definition has_command :: "'w env \<Rightarrow> jsval list \<Rightarrow> bool" where
  "has_command env c =
     (case arg c 0 of JStr m \<Rightarrow> indexOf m ''.'' \<noteq> - 1 \<or> has_method env m | _ \<Rightarrow> False)"

text \<open>
  What the dispatch of a descriptor, its key already namespaced, puts on the batch context
  that follows it.
\<close>

definition queued_call :: "'w env \<Rightarrow> jsval list \<Rightarrow> invocation" where
  "queued_call env c =
     (case c of
        JStr m # JStr k # args \<Rightarrow>
          (if indexOf m ''.'' \<noteq> - 1 then RawCall m (raw_args env m (JStr k # args))
           else Method m (JStr k # (if same_slot m k
                                    then map (rpfx_tagged (redisHprefix env)) args else args)))
      | _ \<Rightarrow> RawCall [] [])"

section \<open>An example environment\<close>

text \<open>
  Collaborators for the examples. The world is the list of the replies that the connection
  will still give, one per invocation (\<open>null\<close> once the list is used up). The connection
  has the commands \<open>get\<close>, \<open>set\<close> and \<open>ping\<close> beside the ones of the library. A batch
  answers every queued standard command with the pair \<open>[null, 'OK']\<close> and every raw command
  with an error and no result. Function 0 of the caller stores a document, so that the
  next read finds the text \<open>[7]\<close>; function 1 stores one without the path, so that the next
  read finds \<open>[]\<close>; every other function does nothing. \<open>JSON.parse\<close> knows three texts,
  \<open>replace\<close> puts a string in place of the first star, and \<open>parseInt\<close> knows the texts
  \<open>0\<close> and \<open>17\<close>.
\<close>

definition script_client :: "invocation \<Rightarrow> jsval list \<Rightarrow> (jsval + jsval) \<times> jsval list" where
  "script_client ivc w = (case w of [] \<Rightarrow> (Inr JNull, []) | r # rs \<Rightarrow> (Inr r, rs))"

definition script_exec :: "batch \<Rightarrow> jsval list \<Rightarrow> (jsval + jsval) \<times> jsval list" where
  "script_exec b w =
     (Inr (JArr (map (\<lambda>ivc. case ivc of
                             Method m a \<Rightarrow> JArr [JNull, JStr ''OK'']
                           | RawCall m a \<Rightarrow> JArr [JStr ''ERR unknown command'', JNull])
                  (queued b))), w)"

definition script_fn :: "nat \<Rightarrow> jsval list \<Rightarrow> jsval list \<Rightarrow> outcome \<times> jsval list" where
  "script_fn n args w =
     (if n = 0 then (Returns (JStr ''stored''), [JStr ''[7]''])
      else if n = 1 then (Returns (JStr ''stored''), [JStr ''[]''])
      else (Returns JUndefined, w))"

definition script_parse :: "string \<Rightarrow> jsval option" where
  "script_parse t =
     (if t = ''[]'' then Some (JArr [])
      else if t = ''[7]'' then Some (JArr [JNum 7])
      else if t = ''null'' then Some JNull
      else None)"

fun replace_first_star :: "string \<Rightarrow> string \<Rightarrow> string" where
  "replace_first_star [] r = []"
| "replace_first_star (c # cs) r = (if c = CHR ''*'' then r @ cs else c # replace_first_star cs r)"

definition script_replace :: "string \<Rightarrow> jsval \<Rightarrow> string" where
  "script_replace ptn k = (case k of JStr r \<Rightarrow> replace_first_star ptn r | _ \<Rightarrow> ptn)"

definition script_parseInt :: "jsval \<Rightarrow> jsval" where
  "script_parseInt v =
     (if v = JStr ''0'' then JNum 0 else if v = JStr ''17'' then JNum 17 else JNaN)"

definition script_env :: "string \<Rightarrow> (jsval list) env" where
  "script_env p =
     \<lparr>redisHprefix = p, client = script_client,
      other_methods = (\<lambda>name. name \<in> set [''get'', ''set'', ''ping'']),
      exec = script_exec, apply_fn = script_fn,
      JSON_parse = script_parse, JSON_stringify = (\<lambda>v. JStr ''null''),
      replace_star = script_replace, parseInt = script_parseInt\<rparr>"

definition start :: "jsval list \<Rightarrow> (jsval list) state" where
  "start w = \<lparr>world = w, batches = [], issued = []\<rparr>"

section \<open>Unfolding rules for the examples\<close>

lemmas script_defs =
  script_env_def script_client_def script_exec_def script_fn_def script_parse_def
  script_replace_def script_parseInt_def start_def

lemmas dispatch_defs =
  rr_def redis_call_def rraw_def raw_args_def rexec_def same_slot_command_def same_slot_def
  rpfx_tagged_def arg_def rpfx_def enqueue_def has_method_def library_methods_def Let_def

lemmas batch_defs =
  rpipemulti_def rpipemulti2array_def create_batch_def exec_batch_def prefix_key_def
  batch_type_multi_def batch_callback_def call_back_def

lemmas get_defs =
  rjget_res_def rjpath_def get_options_def remaining_args_def

section \<open>Properties of the Key Namespacer\<close>

lemma indexOf_nonneg_or_minus1: "indexOf s p = - 1 \<or> 0 \<le> indexOf s p"
  by (induction s) (auto simp: Let_def)

lemma indexOf_zero_iff: "indexOf s p = 0 \<longleftrightarrow> prefix p s"
proof (cases s)
  case Nil
  then show ?thesis by auto
next
  case (Cons c cs)
  have "indexOf cs p = - 1 \<or> 0 \<le> indexOf cs p"
    by (rule indexOf_nonneg_or_minus1)
  then show ?thesis
    using Cons by (auto simp: Let_def)
qed

lemma rpfx_brace: "rpfx p (CHR ''{'' # r) = CHR ''{'' # (if prefix p r then r else p @ r)"
  by (simp add: rpfx_def indexOf_zero_iff)

lemma rpfx_no_brace:
  "take 1 k \<noteq> ''{'' \<Longrightarrow> rpfx p k = (if prefix p k then k else p @ k)"
  by (simp add: rpfx_def indexOf_zero_iff)

lemma rpfx_idem_plain_prefix:
  assumes "take 1 p \<noteq> ''{''"
  shows "rpfx p (rpfx p k) = rpfx p k"
proof (cases "take 1 k = ''{''")
  case True
  then obtain r where k: "k = CHR ''{'' # r"
    by (cases k) auto
  show ?thesis
    unfolding k by (simp add: rpfx_brace)
next
  case False
  show ?thesis
  proof (cases "prefix p k")
    case True
    with False show ?thesis by (simp add: rpfx_no_brace)
  next
    case np: False
    then have "p \<noteq> []" by auto
    with assms have "take 1 (p @ k) \<noteq> ''{''"
      by (cases p) auto
    with False np show ?thesis by (simp add: rpfx_no_brace)
  qed
qed

text \<open>
  C1 (as stated): a key that begins with a cluster tag keeps that tag verbatim, followed by
  the namespaced remainder. With the prefix \<open>p:\<close> the key \<open>{tag}key\<close> is namespaced to
  \<open>{p:tag}key\<close>: the result does not begin with \<open>{tag}\<close>, and it is not the tag followed by
  the namespaced remainder \<open>p:key\<close>.
\<close>

theorem rpfx_tag_not_verbatim:
  "rpfx ''p:'' ''{tag}key'' = ''{p:tag}key''
   \<and> \<not> prefix ''{tag}'' (rpfx ''p:'' ''{tag}key'')
   \<and> rpfx ''p:'' ''{tag}key'' \<noteq> ''{tag}'' @ rpfx ''p:'' ''key''"
  by (simp add: rpfx_def Let_def)

text \<open>
  C1 (amended): for every key that begins with an opening brace, the namespaced key is that
  brace followed by the rest of the key, with the configured prefix put directly after the
  brace unless the rest already begins with the prefix. The text between the braces is kept
  verbatim exactly when no prefix is inserted.
\<close>

theorem rpfx_keeps_opening_brace:
  "take 1 k = ''{'' \<Longrightarrow>
     rpfx p k = ''{'' @ (if prefix p (drop 1 k) then drop 1 k else p @ drop 1 k)
     \<and> (rpfx p k = k \<longleftrightarrow> prefix p (drop 1 k))"
proof -
  assume "take 1 k = ''{''"
  then obtain r where k: "k = CHR ''{'' # r"
    by (cases k) auto
  show ?thesis
    unfolding k by (auto simp add: rpfx_brace)
qed

text \<open>
  C1, an instance: the prefix goes inside the tag of \<open>{tag}key\<close>, and a key whose tag
  already begins with the prefix is left as it is.
\<close>

theorem rpfx_keeps_opening_brace_witness:
  "take 1 ''{tag}key'' = ''{''
   \<and> rpfx ''p:'' ''{tag}key'' = ''{p:tag}key''
   \<and> rpfx ''p:'' ''{p:tag}key'' = ''{p:tag}key''"
  using rpfx_keeps_opening_brace [of "''{tag}key''" "''p:''"]
        rpfx_keeps_opening_brace [of "''{p:tag}key''" "''p:''"]
  by simp

text \<open>
  C4: namespacing twice is namespacing once. This fails for a configured prefix that itself
  begins with an opening brace: with the prefix \<open>{app}:\<close> the key \<open>foo\<close> becomes
  \<open>{app}:foo\<close>, and namespacing that key again strips its brace, does not find the prefix
  at the start of \<open>app}:foo\<close>, and inserts the prefix a second time. For every other
  prefix the property holds (\<open>rpfx_idem_plain_prefix\<close> above).
\<close>

theorem rpfx_not_idempotent_brace_prefix:
  "rpfx ''{app}:'' ''foo'' = ''{app}:foo''
   \<and> rpfx ''{app}:'' (rpfx ''{app}:'' ''foo'') = ''{{app}:app}:foo''
   \<and> rpfx ''{app}:'' (rpfx ''{app}:'' ''foo'') \<noteq> rpfx ''{app}:'' ''foo''"
  by (simp add: rpfx_def Let_def)

section \<open>Properties of the Command Dispatcher and the Batch Executor\<close>

lemma invoke_batches_length: "length (batches (snd (invoke env t ivc s))) = length (batches s)"
  by (cases "(env, t, ivc, s)" rule: invoke.cases) (auto simp: enqueue_def split: prod.splits)

lemma rraw_batches_length: "length (batches (snd (rraw env m a s))) = length (batches s)"
  by (simp add: rraw_def Let_def invoke_batches_length split: prod.splits)

lemma redis_call_batches_length: "length (batches (snd (redis_call env a s))) = length (batches s)"
  by (simp add: redis_call_def rraw_batches_length invoke_batches_length
      split: jsval.splits option.splits prod.splits)

lemma redis_call_batches_lengthD:
  "redis_call env a s = (r, s1) \<Longrightarrow> length (batches s1) = length (batches s)"
  using redis_call_batches_length [of env a s] by simp

lemma rr_batches_length: "length (batches (snd (rr env a s))) = length (batches s)"
  unfolding rr_def Let_def
  by (auto split: jsval.splits prod.splits sum.splits outcome.splits error.splits
      dest: redis_call_batches_lengthD simp: redis_call_batches_length)

text \<open>
  C7: a batch of exactly one command is not batched. \<open>rpipemaybe\<close> on the one descriptor
  gives the result and the state of the direct dispatch \<open>rr\<close> of that descriptor, leaves the
  descriptor as it is, and creates no batch context.
\<close>

theorem rpipemaybe_single:
  "rpipemaybe env [c] s = (fst (rr env c s), [c], snd (rr env c s))
   \<and> length (batches (snd (snd (rpipemaybe env [c] s)))) = length (batches s)"
proof -
  obtain r s1 where "rr env c s = (r, s1)"
    by (cases "rr env c s")
  with rr_batches_length [of env c s] show ?thesis
    by (simp add: rpipemaybe_def)
qed

text \<open>
  C7, an instance: the one command \<open>get a\<close> goes straight to the connection, with the
  namespaced key, and its reply is the result.
\<close>

theorem rpipemaybe_single_witness:
  "rpipemaybe (script_env ''p:'') [[JStr ''get'', JStr ''a'']] (start [JStr ''v'']) =
     (Inr (JStr ''v''), [[JStr ''get'', JStr ''a'']],
      \<lparr>world = [], batches = [], issued = [Method ''get'' [JStr ''p:a'']]\<rparr>)"
  using rpipemaybe_single [of "script_env ''p:''" "[JStr ''get'', JStr ''a'']" "start [JStr ''v'']"]
  by (simp add: script_defs dispatch_defs)

lemma descriptorE:
  assumes "descriptor c"
  obtains m k args where "c = JStr m # JStr k # args"
  using assms unfolding descriptor_def
  by (auto split: list.splits jsval.splits)

lemma rexec_batch_last: "rexec (xs @ [JBatch n]) = (Some (JBatch n), xs)"
  by (simp add: rexec_def)

lemma rpfx_tagged_batch: "rpfx_tagged p (JBatch n) = JBatch n"
  by (simp add: rpfx_tagged_def)

lemma has_method_library [simp]:
  "has_method env ''scan''" "has_method env ''hscan''" "has_method env ''zpopmin''"
  "has_method env ''spop''" "has_method env ''del''"
  by (simp_all add: has_method_def library_methods_def)

lemma rraw_batch_last:
  "rraw env m (xs @ [JBatch n]) s =
     invoke env (Some (JBatch n)) (RawCall m (raw_args env m xs)) s"
  by (simp add: rraw_def rexec_batch_last del: invoke.simps)

lemma enqueue_nil: "n < length (batches s) \<Longrightarrow> enqueue n [] s = s"
  by (simp add: enqueue_def)

lemma enqueue_enqueue:
  "n < length (batches s) \<Longrightarrow> enqueue n q2 (enqueue n q1 s) = enqueue n (q1 @ q2) s"
  by (simp add: enqueue_def)

lemma enqueue_length: "length (batches (enqueue n q s)) = length (batches s)"
  by (simp add: enqueue_def)

lemma invoke_batch_enqueue:
  "callable env ivc \<Longrightarrow> n < length (batches s) \<Longrightarrow>
     invoke env (Some (JBatch n)) ivc s = (Inr (JBatch n), enqueue n [ivc] s)"
  by simp

lemma redis_call_queued:
  assumes "descriptor c" and "has_command env c" and "n < length (batches s)"
  shows "redis_call env (c @ [JBatch n]) s = (Inr (JBatch n), enqueue n [queued_call env c] s)"
proof -
  from assms(1) obtain m k args where c: "c = JStr m # JStr k # args"
    by (rule descriptorE)
  show ?thesis
  proof (cases "indexOf m ''.'' \<noteq> - 1")
    case True
    have "redis_call env (c @ [JBatch n]) s =
            invoke env (Some (JBatch n)) (RawCall m (raw_args env m (JStr k # args))) s"
      using True rraw_batch_last [of env m "JStr k # args" n s]
      by (simp add: c redis_call_def arg_def del: invoke.simps)
    with True assms(3) show ?thesis
      by (simp add: c queued_call_def)
  next
    case False
    with assms(2) have m: "has_method env m"
      by (simp add: c has_command_def arg_def)
    have "redis_call env (c @ [JBatch n]) s =
            invoke env (Some (JBatch n))
              (Method m (JStr k # (if same_slot m k
                                   then map (rpfx_tagged (redisHprefix env)) args else args))) s"
      using False
      by (simp add: c redis_call_def arg_def same_slot_command_def rexec_batch_last
          rpfx_tagged_batch del: invoke.simps)
    with False m assms(3) show ?thesis
      by (simp add: c queued_call_def)
  qed
qed

lemma prefix_key_descriptor:
  assumes "descriptor c"
  shows "prefix_key p c = Some (key_prefixed p c) \<and> descriptor (key_prefixed p c)
         \<and> has_command env (key_prefixed p c) = has_command env c"
proof -
  from assms obtain m k args where c: "c = JStr m # JStr k # args"
    by (rule descriptorE)
  show ?thesis
    by (simp add: c prefix_key_def arg_def descriptor_def key_prefixed_def has_command_def)
qed

lemma queue_commands_descriptors:
  assumes "\<forall>c\<in>set commands. descriptor c \<and> has_command env c" and "n < length (batches s)"
  shows "queue_commands env n commands s =
           (None, map (\<lambda>c. key_prefixed (redisHprefix env) c @ [JBatch n]) commands,
            enqueue n (map (\<lambda>c. queued_call env (key_prefixed (redisHprefix env) c)) commands) s)"
  using assms
proof (induction commands arbitrary: s)
  case Nil
  then show ?case by (simp add: enqueue_nil)
next
  case (Cons c cs)
  let ?c1 = "key_prefixed (redisHprefix env) c"
  from Cons.prems have d: "descriptor c" and h: "has_command env c" by simp_all
  have pk: "prefix_key (redisHprefix env) c = Some ?c1" and d1: "descriptor ?c1"
    and h1: "has_command env ?c1"
    using prefix_key_descriptor [OF d, of "redisHprefix env" env] h by simp_all
  have rc: "redis_call env (?c1 @ [JBatch n]) s = (Inr (JBatch n), enqueue n [queued_call env ?c1] s)"
    using redis_call_queued [OF d1 h1 Cons.prems(2)] .
  have "n < length (batches (enqueue n [queued_call env ?c1] s))"
    using Cons.prems(2) by (simp add: enqueue_length)
  from Cons.IH [OF _ this] Cons.prems show ?case
    by (simp add: pk rc enqueue_enqueue)
qed

lemma create_batch_queue:
  assumes "\<forall>c\<in>set commands. descriptor c \<and> has_command env c"
  shows "queue_commands env (length (batches s)) commands (snd (create_batch multi s)) =
           (None,
            map (\<lambda>c. key_prefixed (redisHprefix env) c @ [JBatch (length (batches s))]) commands,
            s\<lparr>batches := batches s @
                [\<lparr>transactional = multi,
                  queued = map (\<lambda>c. queued_call env (key_prefixed (redisHprefix env) c)) commands\<rparr>]\<rparr>)"
proof -
  let ?s0 = "snd (create_batch multi s)"
  have lt: "length (batches s) < length (batches ?s0)"
    by (simp add: create_batch_def)
  have "enqueue (length (batches s))
          (map (\<lambda>c. queued_call env (key_prefixed (redisHprefix env) c)) commands) ?s0 =
        s\<lparr>batches := batches s @
            [\<lparr>transactional = multi,
              queued = map (\<lambda>c. queued_call env (key_prefixed (redisHprefix env) c)) commands\<rparr>]\<rparr>"
    by (simp add: enqueue_def create_batch_def)
  with queue_commands_descriptors [OF assms lt] show ?thesis by simp
qed

lemma map_index1_pairs: "map_index1 (map (\<lambda>(e, r). JArr [e, r]) ps) = Some (map snd ps)"
  by (induction ps) (auto split: prod.splits)









lemma rpipemulti2array_keyed_results:
  assumes "\<forall>c\<in>set commands. descriptor c \<and> has_command env c"
    and "exec env
           \<lparr>transactional = False,
            queued = map (\<lambda>c. queued_call env (key_prefixed (redisHprefix env) c)) commands\<rparr>
           (world s) = (Inr (JArr (map (\<lambda>(e, r). JArr [e, r]) ps)), w)"
  shows "fst (rpipemulti2array env commands s) = Inr (JArr (map snd ps))"
  using create_batch_queue [OF assms(1), of s False] assms(2)
  by (cases ps) (simp_all add: rpipemulti2array_def create_batch_def exec_batch_def
      map_index1_pairs [of "_ # _", simplified] split: prod.splits)

text \<open>
  C3: \<open>rpipemulti2array\<close> returns one result per command of the batch, in the order of
  submission. This fails for a descriptor without key, which the guard
  \<open>commands[i].length > 1\<close> of the loop lets through: the batch context is appended right
  behind the method name, \<open>_redis_call\<close> takes it for the key and finds no target among
  the arguments, and the command is sent to the connection at once, with the batch context
  as its argument. The batch of \<open>ping\<close> and \<open>del a\<close> returns the one result of \<open>del\<close>. For
  descriptors with a key and a method of the batch context, the queue holds the commands
  in the order of submission and the result is the second element of every pair of the
  execution (\<open>rpipemulti2array_keyed_results\<close> above).
\<close>

theorem rpipemulti2array_keyless_descriptor:
  "rpipemulti2array (script_env ''p:'')
     [[JStr ''ping''], [JStr ''del'', JStr ''a'']] (start [JStr ''PONG'']) =
   (Inr (JArr [JStr ''OK'']),
    [[JStr ''ping'', JBatch 0], [JStr ''del'', JStr ''p:a'', JBatch 0]],
    \<lparr>world = [],
     batches = [\<lparr>transactional = False, queued = [Method ''del'' [JStr ''p:a'']]\<rparr>],
     issued = [Method ''ping'' [JBatch 0]]\<rparr>)"
  by (simp add: script_defs dispatch_defs batch_defs)

section \<open>Properties of the Scan Iterator\<close>

lemma consume_groups_issued:
  "issued (snd (consume_groups env f hscan items s)) = issued s"
proof (induction env f hscan items s rule: consume_groups.induct)
  case (1 env cb hscan items s)
  show ?case
  proof (cases "items = []")
    case True
    then show ?thesis by (simp add: consume_groups.simps)
  next
    case False
    obtain o1 w where a: "apply_fn env cb (drop (length items - (if hscan then 2 else 1)) items) (world s) = (o1, w)"
      by (cases "apply_fn env cb (drop (length items - (if hscan then 2 else 1)) items) (world s)")
    show ?thesis
    proof (cases o1)
      case (Returns v)
      with 1 [OF False a [symmetric] Returns] False a show ?thesis
        by (subst consume_groups.simps) simp
    next
      case (Throws e)
      with False a show ?thesis by (subst consume_groups.simps) simp
    next
      case (Rejects e)
      with False a show ?thesis by (subst consume_groups.simps) simp
    qed
  qed
qed

lemma consume_groups_issuedD:
  "consume_groups env f hscan items s = (e, s1) \<Longrightarrow> issued s1 = issued s"
  using consume_groups_issued [of env f hscan items s] by simp

lemma consume_round_issued:
  "issued (snd (snd (consume_round env cb hscan opts items keys s))) = issued s"
  by (auto simp: consume_round_def split: jsval.splits prod.splits outcome.splits
      dest: consume_groups_issuedD)

lemma consume_round_issuedD:
  "consume_round env cb hscan opts items keys s = (e, keys1, s1) \<Longrightarrow> issued s1 = issued s"
  using consume_round_issued [of env cb hscan opts items keys s] by simp

lemma consume_round_no_callback:
  "\<not> is_function cb \<Longrightarrow>
     consume_round env cb hscan opts items keys s =
       (None, if opt_return opts then keys @ items else keys, s)"
  by (cases cb) (simp_all add: consume_round_def)

lemma consume_groups_error:
  "consume_groups env f hscan items s = (Some e, s1) \<Longrightarrow> \<exists>x. e = Failed x"
proof (induction env f hscan items s rule: consume_groups.induct)
  case (1 env cb hscan items s)
  show ?case
  proof (cases "items = []")
    case True
    with "1.prems" show ?thesis by (simp add: consume_groups.simps)
  next
    case False
    obtain o1 w where a: "apply_fn env cb (drop (length items - (if hscan then 2 else 1)) items) (world s) = (o1, w)"
      by (cases "apply_fn env cb (drop (length items - (if hscan then 2 else 1)) items) (world s)")
    show ?thesis
    proof (cases o1)
      case (Returns v)
      from "1.prems" False a Returns
      have "consume_groups env cb hscan (take (length items - (if hscan then 2 else 1)) items)
              (s\<lparr>world := w\<rparr>) = (Some e, s1)"
        by (subst (asm) consume_groups.simps) simp
      with "1.IH" [OF False a [symmetric] Returns] show ?thesis by simp
    next
      case (Throws x)
      with "1.prems" False a show ?thesis by (subst (asm) consume_groups.simps) auto
    next
      case (Rejects x)
      with "1.prems" False a show ?thesis by (subst (asm) consume_groups.simps) auto
    qed
  qed
qed

lemma consume_round_error:
  "consume_round env cb hscan opts items keys s = (Some e, keys1, s1) \<Longrightarrow>
     is_function cb \<and> (\<exists>x. e = Failed x)"
  by (cases cb)
     (auto simp: consume_round_def split: if_splits prod.splits outcome.splits
       dest: consume_groups_error)

lemma scan_round_reply:
  assumes "client env (Method (if hscan then ''hscan'' else ''scan'') (params @ [JResolve])) (world s)
             = (r, w)"
  shows "scan_round env cb hscan opts params i keys s =
     (case (case r of Inl e \<Rightarrow> JUndefined | Inr v \<Rightarrow> v) of
        JArr (r0 # rs) \<Rightarrow>
          (case (if rs \<noteq> [] \<and> nonempty_array (hd rs)
                 then (case hd rs of
                         JArr items \<Rightarrow>
                           consume_round env cb hscan opts items keys
                             (s\<lparr>world := w,
                                issued := issued s @ [Method (if hscan then ''hscan'' else ''scan'')
                                                        (params @ [JResolve])]\<rparr>)
                       | _ \<Rightarrow> (None, keys,
                               s\<lparr>world := w,
                                 issued := issued s @ [Method (if hscan then ''hscan'' else ''scan'')
                                                         (params @ [JResolve])]\<rparr>))
                 else (None, keys,
                       s\<lparr>world := w,
                         issued := issued s @ [Method (if hscan then ''hscan'' else ''scan'')
                                                 (params @ [JResolve])]\<rparr>)) of
             (Some e, keys1, s2) \<Rightarrow> Stop (Inl e) s2
           | (None, keys1, s2) \<Rightarrow>
               (if \<not> truthy (parseInt env r0) \<or> opt_one opts
                then Stop (Inr (scan_result opts (parseInt env r0) keys1)) s2
                else Again (params[(if hscan then 1 else 0) := parseInt env r0]) (parseInt env r0) keys1 s2))
      | _ \<Rightarrow> Stop (Inr (scan_result opts i keys))
               (s\<lparr>world := w,
                  issued := issued s @ [Method (if hscan then ''hscan'' else ''scan'')
                                          (params @ [JResolve])]\<rparr>))"
  unfolding scan_round_def invoke.simps assms prod.case Let_def
  by (cases r) simp_all

lemma scan_round_one:
  assumes "opt_one opts"
  shows "\<exists>r s1. scan_round env cb hscan opts params i keys s = Stop r s1
           \<and> issued s1 =
               issued s @ [Method (if hscan then ''hscan'' else ''scan'') (params @ [JResolve])]"
proof -
  let ?ivc = "Method (if hscan then ''hscan'' else ''scan'') (params @ [JResolve])"
  obtain r w where cl: "client env ?ivc (world s) = (r, w)"
    by (cases "client env ?ivc (world s)")
  let ?s1 = "s\<lparr>world := w, issued := issued s @ [?ivc]\<rparr>"
  let ?v = "case r of Inl e \<Rightarrow> JUndefined | Inr v \<Rightarrow> v"
  show ?thesis
  proof (cases "\<exists>r0 rs. ?v = JArr (r0 # rs)")
    case False
    then have "scan_round env cb hscan opts params i keys s = Stop (Inr (scan_result opts i keys)) ?s1"
      unfolding scan_round_reply [OF cl]
      by (cases ?v) (auto split: list.splits)
    then show ?thesis by simp
  next
    case True
    then obtain r0 rs where v: "?v = JArr (r0 # rs)" by blast
    let ?c = "if rs \<noteq> [] \<and> nonempty_array (hd rs)
              then (case hd rs of
                      JArr items \<Rightarrow> consume_round env cb hscan opts items keys ?s1
                    | _ \<Rightarrow> (None, keys, ?s1))
              else (None, keys, ?s1)"
    obtain e keys1 s2 where c: "?c = (e, keys1, s2)"
      by (cases ?c)
    have "issued s2 = issued ?s1"
      using c by (auto split: if_splits jsval.splits dest!: consume_round_issuedD)
    moreover have "\<exists>r. scan_round env cb hscan opts params i keys s = Stop r s2"
      unfolding scan_round_reply [OF cl] v using c assms
      by (cases e) simp_all
    ultimately show ?thesis by auto
  qed
qed

lemma scan_round_one_cursor:
  assumes "opt_one opts" and "\<not> is_function cb"
    and "client env (Method (if hscan then ''hscan'' else ''scan'') (params @ [JResolve])) (world s)
           = (Inr (JArr (c # JArr items # rest)), w)"
  shows "\<exists>s1. scan_round env cb hscan opts params i [] s =
           Stop (Inr (scan_result opts (parseInt env c) (if opt_return opts then items else []))) s1"
  unfolding scan_round_reply [OF assms(3)] using assms(1,2)
  by (cases "items = []") (simp_all add: consume_round_no_callback)

lemma scan_round_one_reply:
  assumes "opt_one opts"
    and cl: "client env (Method (if hscan then ''hscan'' else ''scan'') (params @ [JResolve])) (world s)
               = (Inr (JArr (c # rest)), w)"
  shows "(\<exists>keys1 s1. scan_round env cb hscan opts params i keys s =
                        Stop (Inr (scan_result opts (parseInt env c) keys1)) s1)
       \<or> (is_function cb \<and> (\<exists>x s1. scan_round env cb hscan opts params i keys s =
                                       Stop (Inl (Failed x)) s1))"
proof -
  let ?s1 = "s\<lparr>world := w, issued := issued s @
               [Method (if hscan then ''hscan'' else ''scan'') (params @ [JResolve])]\<rparr>"
  let ?c = "if rest \<noteq> [] \<and> nonempty_array (hd rest)
            then (case hd rest of
                    JArr items \<Rightarrow> consume_round env cb hscan opts items keys ?s1
                  | _ \<Rightarrow> (None, keys, ?s1))
            else (None, keys, ?s1)"
  obtain e keys1 s2 where c: "?c = (e, keys1, s2)"
    by (cases ?c)
  show ?thesis
  proof (cases e)
    case None
    with c assms(1) show ?thesis
      unfolding scan_round_reply [OF cl] by auto
  next
    case (Some err)
    with c have "is_function cb \<and> (\<exists>x. err = Failed x)"
      by (auto split: if_splits jsval.splits dest: consume_round_error)
    with c Some show ?thesis
      unfolding scan_round_reply [OF cl] by auto
  qed
qed

lemma consume_round_one:
  "consume_round env cb hscan (opts\<lparr>opt_one := b\<rparr>) items keys s =
     consume_round env cb hscan opts items keys s"
  by (cases cb) (simp_all add: consume_round_def)

lemma scan_result_inject: "scan_result opts i keys1 = scan_result opts i keys2 \<Longrightarrow> keys1 = keys2"
  by (simp add: scan_result_def split: if_splits)

lemma scan_round_goes_on:
  assumes cl: "client env (Method (if hscan then ''hscan'' else ''scan'') (params @ [JResolve])) (world s)
                 = (Inr (JArr (c # JArr items # rest)), w)"
    and items: "items \<noteq> []"
    and stop: "scan_round env cb hscan opts params i keys s =
                 Stop (Inr (scan_result opts (parseInt env c) keys1)) s1"
    and more: "truthy (parseInt env c)"
  shows "scan_round env cb hscan (opts\<lparr>opt_one := False\<rparr>) params i keys s =
           Again (params[(if hscan then 1 else 0) := parseInt env c]) (parseInt env c) keys1 s1"
proof -
  let ?s1 = "s\<lparr>world := w, issued := issued s @
               [Method (if hscan then ''hscan'' else ''scan'') (params @ [JResolve])]\<rparr>"
  obtain e keys2 s2 where c: "consume_round env cb hscan opts items keys ?s1 = (e, keys2, s2)"
    by (cases "consume_round env cb hscan opts items keys ?s1")
  from stop have "e = None \<and> keys2 = keys1 \<and> s2 = s1"
    unfolding scan_round_reply [OF cl] using items c
    by (cases e) (auto split: if_splits dest: scan_result_inject)
  with c items more show ?thesis
    unfolding scan_round_reply [OF cl] by (simp add: consume_round_one scan_result_def)
qed

text \<open>
  C8: a round whose payload is not a non-empty array (\<open>undefined\<close> after an error of the
  connection, \<open>null\<close>, an empty array, any other value) ends the enumeration without a
  failure: the scan returns the cursor and the keys accumulated so far.
\<close>

theorem scan_malformed_round_stops:
  assumes "client env (Method (if hscan then ''hscan'' else ''scan'') (params @ [JResolve])) (world s) = (r, w)"
    and "\<not> nonempty_array (case r of Inl e \<Rightarrow> JUndefined | Inr v \<Rightarrow> v)"
  shows "scan_loop env cb hscan opts params i keys s =
           Some (Inr (scan_result opts i keys),
                 s\<lparr>world := w,
                   issued := issued s @ [Method (if hscan then ''hscan'' else ''scan'') (params @ [JResolve])]\<rparr>)"
proof -
  have "scan_round env cb hscan opts params i keys s =
          Stop (Inr (scan_result opts i keys))
            (s\<lparr>world := w,
               issued := issued s @ [Method (if hscan then ''hscan'' else ''scan'') (params @ [JResolve])]\<rparr>)"
    using assms
    by (auto simp: scan_round_def split: sum.splits jsval.splits list.splits)
  then show ?thesis
    by (subst scan_loop.simps) simp
qed

text \<open>
  C8, an instance: a later round at cursor 17 is answered with an empty array, and the
  scan returns the cursor 17 and the key found before.
\<close>

theorem scan_malformed_round_stops_witness:
  "scan_loop (script_env ''p:'') JUndefined False
     \<lparr>opt_return = True, opt_return_cursor = True, opt_one = False, opt_cursor = 0,
      opt_cb_all = False, opt_count = 0\<rparr>
     [JNum 17, JStr ''MATCH'', JStr ''p:k*''] (JNum 17) [JStr ''p:k1''] (start [JArr []]) =
   Some (Inr (JArr [JNum 17, JArr [JStr ''p:k1'']]),
         \<lparr>world = [], batches = [],
          issued = [Method ''scan'' [JNum 17, JStr ''MATCH'', JStr ''p:k*'', JResolve]]\<rparr>)"
  using scan_malformed_round_stops
    [where hscan = False and env = "script_env ''p:''"
       and params = "[JNum 17, JStr ''MATCH'', JStr ''p:k*'']" and s = "start [JArr []]"
       and r = "Inr (JArr [])" and w = "[]" and cb = JUndefined
       and opts = "\<lparr>opt_return = True, opt_return_cursor = True, opt_one = False, opt_cursor = 0,
          opt_cb_all = False, opt_count = 0\<rparr>" and i = "JNum 17" and keys = "[JStr ''p:k1'']"]
  by (simp add: script_defs scan_result_def)

text \<open>
  C2 (as stated): a scan with \<open>one\<close> returns a cursor to resume from. With \<open>one\<close> and
  \<open>return\<close> but without \<open>return_cursor\<close>, the round answered with the cursor 17 and two
  keys returns the two keys only.
\<close>

theorem scan_one_without_cursor:
  "rscan (script_env ''p:'') ''k*'' JUndefined []
     \<lparr>opt_return = True, opt_return_cursor = False, opt_one = True, opt_cursor = 0,
      opt_cb_all = False, opt_count = 0\<rparr>
     (start [JArr [JStr ''17'', JArr [JStr ''p:k1'', JStr ''p:k2'']]]) =
   Some (Inr (JArr [JStr ''p:k1'', JStr ''p:k2'']),
         \<lparr>world = [], batches = [],
          issued = [Method ''scan'' [JNum 0, JStr ''MATCH'', JStr ''p:k*'', JResolve]]\<rparr>)"
  unfolding rscan_def
  by (subst scan_loop.simps)
     (simp add: scan_round_def scan_params_def consume_round_def scan_result_def
        script_defs rpfx_def Let_def)

lemma scan_params_resume:
  "scan_params p ptn hkey (opts\<lparr>opt_cursor := n\<rparr>) =
     (scan_params p ptn hkey opts)[(if hkey \<noteq> [] then 1 else 0) := JNum n]"
  by (simp add: scan_params_def Let_def)

text \<open>
  C2 (amended): a scan with \<open>one\<close> whose round is not empty (the reply carries a cursor
  \<open>c\<close> and at least one item) ends after that one round, whatever the cursor says of
  further matches. When \<open>return_cursor\<close> is requested too, it returns the pair of
  \<open>parseInt(c)\<close> and the keys, unless the callback fails; without a callback the keys are
  the items of the round with \<open>return\<close> and none without. That cursor resumes the
  enumeration: when it is not zero, the same scan without \<open>one\<close> goes on after this round
  from the state that the scan with \<open>one\<close> has left, with the cursor put in \<open>params\<close> and
  the keys of the round; and when it is a number, a scan that is given it as \<open>cursor\<close>
  starts from those \<open>params\<close> and that cursor, with no key accumulated.
\<close>

theorem scan_one_nonempty_round:
  assumes "opt_one opts"
    and "client env (Method (if hkey \<noteq> [] then ''hscan'' else ''scan'')
                       (scan_params (redisHprefix env) ptn hkey opts @ [JResolve])) (world s)
           = (Inr (JArr (c # JArr items # rest)), w)"
    and "items \<noteq> []"
  shows "\<exists>r s1. rscan env ptn cb hkey opts s = Some (r, s1)
           \<and> issued s1 =
               issued s @ [Method (if hkey \<noteq> [] then ''hscan'' else ''scan'')
                             (scan_params (redisHprefix env) ptn hkey opts @ [JResolve])]
           \<and> (opt_return_cursor opts
                \<longrightarrow> (\<exists>keys. r = Inr (JArr [parseInt env c, JArr keys]))
                    \<or> (is_function cb \<and> (\<exists>x. r = Inl (Failed x))))
           \<and> (opt_return_cursor opts \<and> \<not> is_function cb
                \<longrightarrow> r = Inr (JArr [parseInt env c, JArr (if opt_return opts then items else [])]))
           \<and> (\<forall>keys. r = Inr (scan_result opts (parseInt env c) keys) \<and> truthy (parseInt env c)
                \<longrightarrow> rscan env ptn cb hkey (opts\<lparr>opt_one := False\<rparr>) s =
                    scan_loop env cb (hkey \<noteq> []) (opts\<lparr>opt_one := False\<rparr>)
                      ((scan_params (redisHprefix env) ptn hkey opts)
                         [(if hkey \<noteq> [] then 1 else 0) := parseInt env c])
                      (parseInt env c) keys s1)
           \<and> (\<forall>n s2. parseInt env c = JNum n
                \<longrightarrow> rscan env ptn cb hkey (opts\<lparr>opt_cursor := n\<rparr>) s2 =
                    scan_loop env cb (hkey \<noteq> []) (opts\<lparr>opt_cursor := n\<rparr>)
                      ((scan_params (redisHprefix env) ptn hkey opts)
                         [(if hkey \<noteq> [] then 1 else 0) := parseInt env c])
                      (parseInt env c) [] s2)"
proof -
  let ?params = "scan_params (redisHprefix env) ptn hkey opts"
  let ?ivc = "Method (if hkey \<noteq> [] then ''hscan'' else ''scan'') (?params @ [JResolve])"
  obtain r s1 where
    round: "scan_round env cb (hkey \<noteq> []) opts ?params (JNum (opt_cursor opts)) [] s = Stop r s1"
    and log: "issued s1 = issued s @ [?ivc]"
    using scan_round_one [OF assms(1), of env cb "hkey \<noteq> []" ?params "JNum (opt_cursor opts)" "[]" s]
    by auto
  have run: "rscan env ptn cb hkey opts s = Some (r, s1)"
    unfolding rscan_def by (subst scan_loop.simps) (simp add: round)
  have any: "opt_return_cursor opts
      \<longrightarrow> (\<exists>keys. r = Inr (JArr [parseInt env c, JArr keys]))
          \<or> (is_function cb \<and> (\<exists>x. r = Inl (Failed x)))"
    using scan_round_one_reply [OF assms(1) assms(2), of cb "JNum (opt_cursor opts)" "[]"] round
    by (auto simp: scan_result_def)
  have cur: "opt_return_cursor opts \<and> \<not> is_function cb
      \<longrightarrow> r = Inr (JArr [parseInt env c, JArr (if opt_return opts then items else [])])"
  proof (intro impI, elim conjE)
    assume rc: "opt_return_cursor opts" and nf: "\<not> is_function cb"
    from scan_round_one_cursor [OF assms(1) nf assms(2), of "JNum (opt_cursor opts)"]
    obtain s2 where "scan_round env cb (hkey \<noteq> []) opts ?params (JNum (opt_cursor opts)) [] s =
           Stop (Inr (scan_result opts (parseInt env c) (if opt_return opts then items else []))) s2"
      by auto
    with round rc show "r = Inr (JArr [parseInt env c, JArr (if opt_return opts then items else [])])"
      by (simp add: scan_result_def)
  qed
  have goes_on: "\<forall>keys. r = Inr (scan_result opts (parseInt env c) keys) \<and> truthy (parseInt env c)
      \<longrightarrow> rscan env ptn cb hkey (opts\<lparr>opt_one := False\<rparr>) s =
          scan_loop env cb (hkey \<noteq> []) (opts\<lparr>opt_one := False\<rparr>)
            (?params[(if hkey \<noteq> [] then 1 else 0) := parseInt env c]) (parseInt env c) keys s1"
  proof (intro allI impI, elim conjE)
    fix keys
    assume r: "r = Inr (scan_result opts (parseInt env c) keys)" and t: "truthy (parseInt env c)"
    have same: "scan_params (redisHprefix env) ptn hkey (opts\<lparr>opt_one := False\<rparr>) = ?params"
      by (simp add: scan_params_def)
    have "scan_round env cb (hkey \<noteq> []) (opts\<lparr>opt_one := False\<rparr>) ?params
            (JNum (opt_cursor opts)) [] s =
          Again (?params[(if hkey \<noteq> [] then 1 else 0) := parseInt env c]) (parseInt env c) keys s1"
      using scan_round_goes_on [OF assms(2) assms(3) round [unfolded r] t] .
    then show "rscan env ptn cb hkey (opts\<lparr>opt_one := False\<rparr>) s =
          scan_loop env cb (hkey \<noteq> []) (opts\<lparr>opt_one := False\<rparr>)
            (?params[(if hkey \<noteq> [] then 1 else 0) := parseInt env c]) (parseInt env c) keys s1"
      unfolding rscan_def same by (subst scan_loop.simps) simp
  qed
  have resume: "\<forall>n s2. parseInt env c = JNum n
      \<longrightarrow> rscan env ptn cb hkey (opts\<lparr>opt_cursor := n\<rparr>) s2 =
          scan_loop env cb (hkey \<noteq> []) (opts\<lparr>opt_cursor := n\<rparr>)
            (?params[(if hkey \<noteq> [] then 1 else 0) := parseInt env c]) (parseInt env c) [] s2"
    by (simp add: rscan_def scan_params_resume)
  from run log any cur goes_on resume show ?thesis by blast
qed

text \<open>
  C2, an instance: the round answers with the cursor 17 and two keys, so matches remain;
  the scan returns 17 with the two keys. A scan resumed at 17 sends 17 as its cursor and
  finds the last key, the one that the scan without \<open>one\<close> finds in its second round.
\<close>

theorem scan_one_nonempty_round_witness:
  "opt_one \<lparr>opt_return = True, opt_return_cursor = True, opt_one = True, opt_cursor = 0,
            opt_cb_all = False, opt_count = 0\<rparr>
   \<and> rscan (script_env ''p:'') ''k*'' JUndefined []
       \<lparr>opt_return = True, opt_return_cursor = True, opt_one = True, opt_cursor = 0,
        opt_cb_all = False, opt_count = 0\<rparr>
       (start [JArr [JStr ''17'', JArr [JStr ''p:k1'', JStr ''p:k2'']],
               JArr [JStr ''0'', JArr [JStr ''p:k3'']]]) =
     Some (Inr (JArr [JNum 17, JArr [JStr ''p:k1'', JStr ''p:k2'']]),
           \<lparr>world = [JArr [JStr ''0'', JArr [JStr ''p:k3'']]], batches = [],
            issued = [Method ''scan'' [JNum 0, JStr ''MATCH'', JStr ''p:k*'', JResolve]]\<rparr>)
   \<and> rscan (script_env ''p:'') ''k*'' JUndefined []
       \<lparr>opt_return = True, opt_return_cursor = True, opt_one = True, opt_cursor = 17,
        opt_cb_all = False, opt_count = 0\<rparr>
       \<lparr>world = [JArr [JStr ''0'', JArr [JStr ''p:k3'']]], batches = [],
        issued = [Method ''scan'' [JNum 0, JStr ''MATCH'', JStr ''p:k*'', JResolve]]\<rparr> =
     Some (Inr (JArr [JNum 0, JArr [JStr ''p:k3'']]),
           \<lparr>world = [], batches = [],
            issued = [Method ''scan'' [JNum 0, JStr ''MATCH'', JStr ''p:k*'', JResolve],
                      Method ''scan'' [JNum 17, JStr ''MATCH'', JStr ''p:k*'', JResolve]]\<rparr>)
   \<and> rscan (script_env ''p:'') ''k*'' JUndefined []
       \<lparr>opt_return = True, opt_return_cursor = True, opt_one = False, opt_cursor = 0,
        opt_cb_all = False, opt_count = 0\<rparr>
       (start [JArr [JStr ''17'', JArr [JStr ''p:k1'', JStr ''p:k2'']],
               JArr [JStr ''0'', JArr [JStr ''p:k3'']]]) =
     Some (Inr (JArr [JNum 0, JArr [JStr ''p:k1'', JStr ''p:k2'', JStr ''p:k3'']]),
           \<lparr>world = [], batches = [],
            issued = [Method ''scan'' [JNum 0, JStr ''MATCH'', JStr ''p:k*'', JResolve],
                      Method ''scan'' [JNum 17, JStr ''MATCH'', JStr ''p:k*'', JResolve]]\<rparr>)"
proof -
  let ?opts = "\<lparr>opt_return = True, opt_return_cursor = True, opt_one = True, opt_cursor = 0,
                 opt_cb_all = False, opt_count = 0\<rparr>"
  let ?env = "script_env ''p:'' :: (jsval list) env"
  let ?last = "JArr [JStr ''0'', JArr [JStr ''p:k3'']]"
  let ?s = "start [JArr [JStr ''17'', JArr [JStr ''p:k1'', JStr ''p:k2'']], ?last]"
  let ?s1 = "\<lparr>world = [?last], batches = [],
              issued = [Method ''scan'' [JNum 0, JStr ''MATCH'', JStr ''p:k*'', JResolve]]\<rparr>
             :: (jsval list) state"
  let ?s2 = "\<lparr>world = [], batches = [],
              issued = [Method ''scan'' [JNum 0, JStr ''MATCH'', JStr ''p:k*'', JResolve],
                        Method ''scan'' [JNum 17, JStr ''MATCH'', JStr ''p:k*'', JResolve]]\<rparr>
             :: (jsval list) state"
  have one: "opt_one ?opts" by simp
  have reply: "client ?env (Method (if [] \<noteq> [] then ''hscan'' else ''scan'')
                  (scan_params (redisHprefix ?env) ''k*'' [] ?opts @ [JResolve])) (world ?s)
                = (Inr (JArr (JStr ''17'' # JArr [JStr ''p:k1'', JStr ''p:k2''] # [])), [?last])"
    by (simp add: script_defs)
  have items: "[JStr ''p:k1'', JStr ''p:k2''] \<noteq> []" by simp
  have run: "rscan ?env ''k*'' JUndefined [] ?opts ?s =
               Some (Inr (JArr [JNum 17, JArr [JStr ''p:k1'', JStr ''p:k2'']]), ?s1)"
    unfolding rscan_def
    by (subst scan_loop.simps)
       (simp add: scan_round_def scan_params_def consume_round_def scan_result_def
          script_defs rpfx_def Let_def)
  have second: "scan_loop ?env JUndefined False opts2
                  [JNum 17, JStr ''MATCH'', JStr ''p:k*''] (JNum 17) keys ?s1 =
                Some (Inr (scan_result opts2 (JNum 0)
                             (if opt_return opts2 then keys @ [JStr ''p:k3''] else keys)), ?s2)"
    for opts2 keys
    by (subst scan_loop.simps)
       (simp add: scan_round_def consume_round_def script_defs Let_def)
  have pi: "parseInt ?env (JStr ''17'') = JNum 17"
    by (simp add: script_defs)
  have pm: "scan_params (redisHprefix ?env) ''k*'' [] ?opts = [JNum 0, JStr ''MATCH'', JStr ''p:k*'']"
    by (simp add: scan_params_def script_defs rpfx_def Let_def)
  from scan_one_nonempty_round [OF one reply items, of JUndefined] run
  show ?thesis
    by (simp add: pi pm second scan_result_def)
qed

section \<open>Properties of the drain\<close>

lemma even_positions_pairs:
  "even_positions (concat (map (\<lambda>(m, sc). [f m, g sc]) pairs)) = map (\<lambda>(m, sc). f m) pairs"
  by (induction pairs) (auto split: prod.splits)

lemma rr_pop:
  "rr env [JStr (if is_sorted then ''zpopmin'' else ''spop''), JStr keys_set, JNum 500] s =
     invoke env None
       (Method (if is_sorted then ''zpopmin'' else ''spop'')
          [JStr (rpfx (redisHprefix env) keys_set), JNum 500]) s"
  by (simp add: rr_def arg_def redis_call_def same_slot_command_def rexec_def rpfx_tagged_def
      Let_def del: invoke.simps)

lemma redis_call_del:
  "redis_call env [JStr ''del'', JStr k, JBatch n] s =
     invoke env (Some (JBatch n)) (Method ''del'' [JStr k]) s"
  by (simp add: redis_call_def arg_def same_slot_command_def rexec_def rpfx_tagged_def
      del: invoke.simps)

lemma queue_commands_del:
  assumes "n < length (batches s)"
  shows "queue_commands env n (map (\<lambda>k. [JStr ''del'', JStr k]) ks) s =
           (None,
            map (\<lambda>k. [JStr ''del'', JStr (rpfx (redisHprefix env) k), JBatch n]) ks,
            enqueue n (map (\<lambda>k. Method ''del'' [JStr (rpfx (redisHprefix env) k)]) ks) s)"
  using assms
proof (induction ks arbitrary: s)
  case Nil
  then show ?case by (simp add: enqueue_nil)
next
  case (Cons k ks)
  have pk: "prefix_key (redisHprefix env) [JStr ''del'', JStr k] =
              Some [JStr ''del'', JStr (rpfx (redisHprefix env) k)]"
    by (simp add: prefix_key_def)
  have rc: "redis_call env [JStr ''del'', JStr (rpfx (redisHprefix env) k), JBatch n] s =
              (Inr (JBatch n), enqueue n [Method ''del'' [JStr (rpfx (redisHprefix env) k)]] s)"
    using Cons.prems by (simp add: redis_call_del)
  have "n < length (batches (enqueue n [Method ''del'' [JStr (rpfx (redisHprefix env) k)]] s))"
    using Cons.prems by (simp add: enqueue_length)
  from Cons.IH [OF this] Cons.prems show ?case
    by (simp add: pk rc enqueue_enqueue)
qed

lemma rpipemulti_del:
  assumes "exec env \<lparr>transactional = False,
                     queued = map (\<lambda>k. Method ''del'' [JStr (rpfx (redisHprefix env) k)]) ks\<rparr>
             (world s) = (r, w)"
  shows "rpipemulti env (map (\<lambda>k. [JStr ''del'', JStr k]) ks) JUndefined JUndefined s =
           ((case r of Inl e \<Rightarrow> Inl (Failed e) | Inr v \<Rightarrow> Inr v),
            map (\<lambda>k. [JStr ''del'', JStr (rpfx (redisHprefix env) k), JBatch (length (batches s))]) ks,
            s\<lparr>world := w,
              batches := batches s @
                [\<lparr>transactional = False,
                  queued = map (\<lambda>k. Method ''del'' [JStr (rpfx (redisHprefix env) k)]) ks\<rparr>]\<rparr>)"
proof -
  let ?s0 = "snd (create_batch False s)"
  have lt: "length (batches s) < length (batches ?s0)"
    by (simp add: create_batch_def)
  have "enqueue (length (batches s))
          (map (\<lambda>k. Method ''del'' [JStr (rpfx (redisHprefix env) k)]) ks) ?s0 =
        s\<lparr>batches := batches s @
            [\<lparr>transactional = False,
              queued = map (\<lambda>k. Method ''del'' [JStr (rpfx (redisHprefix env) k)]) ks\<rparr>]\<rparr>"
    by (simp add: enqueue_def create_batch_def)
  with queue_commands_del [OF lt, of env ks] assms show ?thesis
    by (simp add: rpipemulti_def batch_type_multi_def batch_callback_def create_batch_def
        exec_batch_def)
qed

lemma del_commands_members:
  "del_commands env ptn (map (\<lambda>(m, sc). JStr m) pairs) =
     map (\<lambda>k. [JStr ''del'', JStr k])
       (map (\<lambda>(m, sc). if ptn \<noteq> [] then replace_star env ptn (JStr m) else m) pairs)"
  by (simp add: del_commands_def split_def)

text \<open>
  C9: the drain of a sorted collection. Every round pops with
  \<open>zpopmin(key, 500)\<close> on the namespaced key. A round answered with anything but a
  non-empty array ends the drain. A round answered with the members and scores
  \<open>m1, s1, m2, s2, ...\<close> queues, on a fresh pipeline, one \<open>del\<close> per member and none for a
  score, executes it, and the drain goes on with the next round.
\<close>

theorem drain_sorted_round:
  "(\<forall>reply w.
      client env (Method ''zpopmin'' [JStr (rpfx (redisHprefix env) keys_set), JNum 500]) (world s)
        = (Inr reply, w)
      \<and> \<not> nonempty_array reply
      \<longrightarrow> rdel_from_set env keys_set True ptn s =
            Some (Inr JUndefined,
                  s\<lparr>world := w,
                    issued := issued s @
                      [Method ''zpopmin'' [JStr (rpfx (redisHprefix env) keys_set), JNum 500]]\<rparr>))
   \<and> (\<forall>pairs w v w1.
        pairs \<noteq> []
        \<and> client env (Method ''zpopmin'' [JStr (rpfx (redisHprefix env) keys_set), JNum 500]) (world s)
            = (Inr (JArr (concat (map (\<lambda>(m, sc). [JStr m, sc]) pairs))), w)
        \<and> exec env
             \<lparr>transactional = False,
              queued = map (\<lambda>(m, sc). Method ''del''
                              [JStr (rpfx (redisHprefix env)
                                      (if ptn \<noteq> [] then replace_star env ptn (JStr m) else m))])
                         pairs\<rparr> w
            = (Inr v, w1)
        \<longrightarrow> rdel_from_set env keys_set True ptn s =
              rdel_from_set env keys_set True ptn
                (s\<lparr>world := w1,
                   issued := issued s @
                     [Method ''zpopmin'' [JStr (rpfx (redisHprefix env) keys_set), JNum 500]],
                   batches := batches s @
                     [\<lparr>transactional = False,
                       queued = map (\<lambda>(m, sc). Method ''del''
                                       [JStr (rpfx (redisHprefix env)
                                               (if ptn \<noteq> [] then replace_star env ptn (JStr m) else m))])
                                  pairs\<rparr>]\<rparr>))"
proof (intro conjI allI impI; elim conjE)
  let ?pop = "Method ''zpopmin'' [JStr (rpfx (redisHprefix env) keys_set), JNum 500]"
  fix reply w
  assume cl: "client env ?pop (world s) = (Inr reply, w)" and ne: "\<not> nonempty_array reply"
  have rr: "rr env [JStr (if True then ''zpopmin'' else ''spop''), JStr keys_set, JNum 500] s =
              (Inr reply, s\<lparr>world := w, issued := issued s @ [?pop]\<rparr>)"
    unfolding rr_pop using cl by simp
  show "rdel_from_set env keys_set True ptn s =
          Some (Inr JUndefined, s\<lparr>world := w, issued := issued s @ [?pop]\<rparr>)"
    unfolding rdel_from_set.simps [of env keys_set True ptn s] rr
    using ne by (cases reply) (auto split: list.splits)
next
  let ?pop = "Method ''zpopmin'' [JStr (rpfx (redisHprefix env) keys_set), JNum 500]"
  fix pairs :: "(string \<times> jsval) list" and w v w1
  let ?keys = "map (\<lambda>(m, sc). if ptn \<noteq> [] then replace_star env ptn (JStr m) else m) pairs"
  let ?dels = "map (\<lambda>(m, sc). Method ''del''
                      [JStr (rpfx (redisHprefix env)
                              (if ptn \<noteq> [] then replace_star env ptn (JStr m) else m))]) pairs"
  let ?payload = "concat (map (\<lambda>(m, sc). [JStr m, sc]) pairs)"
  assume ne: "pairs \<noteq> []"
    and cl: "client env ?pop (world s) = (Inr (JArr ?payload), w)"
    and ex: "exec env \<lparr>transactional = False, queued = ?dels\<rparr> w = (Inr v, w1)"
  let ?s1 = "s\<lparr>world := w, issued := issued s @ [?pop]\<rparr>"
  have rr: "rr env [JStr (if True then ''zpopmin'' else ''spop''), JStr keys_set, JNum 500] s =
              (Inr (JArr ?payload), ?s1)"
    unfolding rr_pop using cl by simp
  obtain k ks1 where payload: "?payload = k # ks1"
    using ne by (cases pairs) (auto split: prod.splits)
  have members: "even_positions ?payload = map (\<lambda>(m, sc). JStr m) pairs"
    using even_positions_pairs [of JStr "\<lambda>x. x" pairs] by simp
  have dels: "map (\<lambda>k. Method ''del'' [JStr (rpfx (redisHprefix env) k)]) ?keys = ?dels"
    by (simp add: split_def)
  have ex1: "exec env \<lparr>transactional = False,
                        queued = map (\<lambda>k. Method ''del'' [JStr (rpfx (redisHprefix env) k)]) ?keys\<rparr>
               (world ?s1) = (Inr v, w1)"
    unfolding dels using ex by simp
  have batch: "rpipemulti env (del_commands env ptn (even_positions ?payload)) JUndefined JUndefined ?s1 =
          (Inr v,
           map (\<lambda>k. [JStr ''del'', JStr (rpfx (redisHprefix env) k), JBatch (length (batches ?s1))]) ?keys,
           ?s1\<lparr>world := w1, batches := batches ?s1 @ [\<lparr>transactional = False, queued = ?dels\<rparr>]\<rparr>)"
    unfolding members del_commands_members rpipemulti_del [OF ex1] dels by simp
  have st: "?s1\<lparr>world := w1, batches := batches ?s1 @ [\<lparr>transactional = False, queued = ?dels\<rparr>]\<rparr> =
            s\<lparr>world := w1, issued := issued s @ [?pop],
               batches := batches s @ [\<lparr>transactional = False, queued = ?dels\<rparr>]\<rparr>"
    by simp
  have "rdel_from_set env keys_set True ptn s =
          rdel_from_set env keys_set True ptn
            (?s1\<lparr>world := w1, batches := batches ?s1 @ [\<lparr>transactional = False, queued = ?dels\<rparr>]\<rparr>)"
    apply (subst rdel_from_set.simps [of env keys_set True ptn s])
    apply (simp only: rr prod.case sum.case)
    apply (simp only: payload [symmetric] jsval.case list.case if_True)
    apply (simp only: payload jsval.case list.case if_True)
    apply (simp only: payload [symmetric] batch prod.case sum.case)
    done
  then show "rdel_from_set env keys_set True ptn s =
          rdel_from_set env keys_set True ptn
            (s\<lparr>world := w1, issued := issued s @ [?pop],
               batches := batches s @ [\<lparr>transactional = False, queued = ?dels\<rparr>]\<rparr>)"
    unfolding st .
qed

text \<open>
  C9, an instance: a sorted collection of three members is drained by two pops and one
  batch of three deletions, of the members \<open>a\<close>, \<open>b\<close> and \<open>c\<close>.
\<close>

theorem drain_sorted_round_witness:
  "rdel_from_set (script_env ''p:'') ''queue'' True []
     (start [JArr [JStr ''a'', JStr ''1'', JStr ''b'', JStr ''2'', JStr ''c'', JStr ''3''], JArr []]) =
   Some (Inr JUndefined,
         \<lparr>world = [],
          batches = [\<lparr>transactional = False,
                      queued = [Method ''del'' [JStr ''p:a''], Method ''del'' [JStr ''p:b''],
                                Method ''del'' [JStr ''p:c'']]\<rparr>],
          issued = [Method ''zpopmin'' [JStr ''p:queue'', JNum 500],
                    Method ''zpopmin'' [JStr ''p:queue'', JNum 500]]\<rparr>)"
proof -
  let ?env = "script_env ''p:''"
  let ?pairs = "[(''a'', JStr ''1''), (''b'', JStr ''2''), (''c'', JStr ''3'')]"
  let ?s0 = "start [JArr [JStr ''a'', JStr ''1'', JStr ''b'', JStr ''2'', JStr ''c'', JStr ''3''], JArr []]"
  let ?dels = "[Method ''del'' [JStr ''p:a''], Method ''del'' [JStr ''p:b''], Method ''del'' [JStr ''p:c'']]"
  let ?pop = "Method ''zpopmin'' [JStr ''p:queue'', JNum 500]"
  let ?s1 = "\<lparr>world = [JArr []], batches = [\<lparr>transactional = False, queued = ?dels\<rparr>],
              issued = [?pop]\<rparr> :: (jsval list) state"
  have round: "rdel_from_set ?env ''queue'' True [] ?s0 = rdel_from_set ?env ''queue'' True [] ?s1"
    using drain_sorted_round [of ?env "''queue''" ?s0 "[]", THEN conjunct2, rule_format,
        of ?pairs "[JArr []]" _ "[JArr []]"]
    by (simp add: script_defs rpfx_def Let_def)
  have stop: "rdel_from_set ?env ''queue'' True [] ?s1 =
                Some (Inr JUndefined,
                      \<lparr>world = [], batches = [\<lparr>transactional = False, queued = ?dels\<rparr>],
                       issued = [?pop, ?pop]\<rparr>)"
    using drain_sorted_round [of ?env "''queue''" ?s1 "[]", THEN conjunct1, rule_format,
        of "JArr []" "[]"]
    by (simp add: script_defs rpfx_def Let_def)
  from round stop show ?thesis by simp
qed

section \<open>Properties of the Document Path Accessor\<close>

lemma rraw_get:
  "rraw env ''JSON.GET'' [JStr k, JStr p] s = invoke env None (RawCall ''JSON.GET'' [JStr k, JStr p]) s"
  by (simp add: rraw_def raw_args_def rexec_def Let_def del: invoke.simps)

lemma rjpath_idem: "rjpath (rjpath path) = rjpath path"
  by (simp add: rjpath_def)

lemma rjget_no_trailing:
  "rjget env hkey path callback [] s =
     rjget_res env (rpfx (redisHprefix env) hkey) (rjpath path) callback
       \<lparr>rerun = False, keep_array = False, empty_array_null = False\<rparr> s"
  by (subst rjget.simps)
     (simp add: remaining_args_def get_options_def split: prod.splits sum.splits)

lemma rjget_res_plain:
  assumes "\<not> is_function callback"
    and "client env (RawCall ''JSON.GET'' [JStr k, JStr p]) (world s) = (Inr reply, w)"
  shows "reply = JNull \<Longrightarrow> fst (rjget_res env k p callback opts s) = Inr JNull"
    and "reply = JStr t \<Longrightarrow> JSON_parse env t = Some (JArr []) \<Longrightarrow>
           fst (rjget_res env k p callback opts s) =
             Inr (if empty_array_null opts then JNull else JArr [])"
    and "reply = JStr t \<Longrightarrow> JSON_parse env t = Some (JArr [x]) \<Longrightarrow>
           fst (rjget_res env k p callback opts s) = Inr (if keep_array opts then JArr [x] else x)"
  using assms
  by (cases callback; simp add: rjget_res_def rraw_get Let_def)+

lemma rjget_no_fallback_function:
  assumes "remaining_args rest_args = [] \<or> \<not> is_function (hd (remaining_args rest_args))"
  shows "rjget env hkey path callback rest_args s =
           rjget_res env (rpfx (redisHprefix env) hkey) (rjpath path) callback
             (get_options rest_args) s"
proof -
  obtain r s1 where res: "rjget_res env (rpfx (redisHprefix env) hkey) (rjpath path) callback
             (get_options rest_args) s = (r, s1)"
    by (cases "rjget_res env (rpfx (redisHprefix env) hkey) (rjpath path) callback
             (get_options rest_args) s")
  show ?thesis
  proof (cases r)
    case (Inl e)
    with res show ?thesis by (subst rjget.simps) simp
  next
    case (Inr v)
    show ?thesis
    proof (cases "v \<noteq> JNull \<or> remaining_args rest_args = []")
      case True
      with res Inr show ?thesis by (subst rjget.simps) auto
    next
      case False
      with assms have "\<not> is_function (hd (remaining_args rest_args))" by simp
      with res Inr False show ?thesis
        by (subst rjget.simps) (cases "hd (remaining_args rest_args)"; simp)
    qed
  qed
qed

text \<open>
  The fallback protocol. When the value after the option handling is \<open>null\<close> and the
  first trailing argument that is left is a function, the function is called with the
  namespaced key and the normalised path. Without \<open>rerun\<close> what it returns is the answer.
  With \<open>rerun\<close> its result is dropped and \<open>rjget\<close> calls itself once, on the namespaced
  key and the normalised path, with the callback and without trailing arguments: a read
  with every option reset and no fallback.
\<close>

lemma rjget_fallback:
  assumes "rjget_res env (rpfx (redisHprefix env) hkey) (rjpath path) callback
             (get_options rest_args) s = (Inr JNull, s1)"
    and "remaining_args rest_args = JFunc f # others"
    and "apply_fn env f [JStr (rpfx (redisHprefix env) hkey), JStr (rjpath path)] (world s1)
           = (Returns ret, w)"
  shows "rjget env hkey path callback rest_args s =
           (if JStr ''rerun'' \<in> set rest_args
            then rjget_res env (rpfx (redisHprefix env) (rpfx (redisHprefix env) hkey)) (rjpath path)
                   callback \<lparr>rerun = False, keep_array = False, empty_array_null = False\<rparr>
                   (s1\<lparr>world := w\<rparr>)
            else (Inr ret, s1\<lparr>world := w\<rparr>))"
proof -
  have "rjget env hkey path callback rest_args s =
          (if rerun (get_options rest_args)
           then rjget env (rpfx (redisHprefix env) hkey) (rjpath path) callback [] (s1\<lparr>world := w\<rparr>)
           else (Inr ret, s1\<lparr>world := w\<rparr>))"
    by (subst rjget.simps) (simp add: assms)
  then show ?thesis
    by (simp add: rjget_no_trailing rjpath_idem get_options_def)
qed

text \<open>
  C5: with \<open>rerun\<close> the entire get call is issued once more after the fallback. This fails
  for the option tokens of the call: \<open>rjget\<close> calls itself with the key, the path and the
  callback only, so the second get runs without \<open>empty_array_null\<close> and \<open>keep_array\<close>.
  The key is missing and the fallback stores a document without the path: with \<open>rerun\<close>
  and \<open>empty_array_null\<close> the answer is the empty array, where the same get on the stored
  document answers \<open>null\<close>. The fallback stores the document \<open>[7]\<close>: with \<open>rerun\<close> and
  \<open>keep_array\<close> the answer is 7, where the same get on the stored document answers the
  array.
\<close>

theorem rjget_rerun_drops_options:
  "fst (rjget (script_env ''p:'') ''doc'' ''a'' JUndefined
          [JFunc 1, JStr ''rerun'', JStr ''empty_array_null''] (start [JNull])) = Inr (JArr [])
   \<and> fst (rjget (script_env ''p:'') ''doc'' ''a'' JUndefined
            [JStr ''empty_array_null''] (start [JStr ''[]''])) = Inr JNull
   \<and> fst (rjget (script_env ''p:'') ''doc'' ''a'' JUndefined
            [JFunc 0, JStr ''rerun'', JStr ''keep_array''] (start [JNull])) = Inr (JNum 7)
   \<and> fst (rjget (script_env ''p:'') ''doc'' ''a'' JUndefined
            [JStr ''keep_array''] (start [JStr ''[7]''])) = Inr (JArr [JNum 7])"
proof -
  let ?env = "script_env ''p:'' :: (jsval list) env"
  let ?s1 = "\<lparr>world = [], batches = [],
              issued = [RawCall ''JSON.GET'' [JStr ''p:doc'', JStr ''$.a'']]\<rparr> :: (jsval list) state"
  have res: "rjget_res ?env (rpfx (redisHprefix ?env) ''doc'') (rjpath ''a'') JUndefined
               (get_options rest_args) (start [JNull]) = (Inr JNull, ?s1)"
    for rest_args
    by (simp add: get_defs script_defs dispatch_defs)
  have fb0: "apply_fn ?env 0 [JStr (rpfx (redisHprefix ?env) ''doc''), JStr (rjpath ''a'')] (world ?s1)
               = (Returns (JStr ''stored''), [JStr ''[7]''])"
    and fb1: "apply_fn ?env 1 [JStr (rpfx (redisHprefix ?env) ''doc''), JStr (rjpath ''a'')] (world ?s1)
               = (Returns (JStr ''stored''), [JStr ''[]''])"
    by (simp_all add: script_defs)
  have r0: "remaining_args [JFunc 0, JStr ''rerun'', JStr ''keep_array''] = JFunc 0 # []"
    and r1: "remaining_args [JFunc 1, JStr ''rerun'', JStr ''empty_array_null''] = JFunc 1 # []"
    by (simp_all add: remaining_args_def)
  have a: "fst (rjget ?env ''doc'' ''a'' JUndefined
                  [JFunc 1, JStr ''rerun'', JStr ''empty_array_null''] (start [JNull])) = Inr (JArr [])"
    unfolding rjget_fallback [OF res r1 fb1]
    by (simp add: get_defs script_defs dispatch_defs)
  have b: "fst (rjget ?env ''doc'' ''a'' JUndefined
                  [JFunc 0, JStr ''rerun'', JStr ''keep_array''] (start [JNull])) = Inr (JNum 7)"
    unfolding rjget_fallback [OF res r0 fb0]
    by (simp add: get_defs script_defs dispatch_defs)
  have plain: "remaining_args [JStr ''empty_array_null''] = []"
    "remaining_args [JStr ''keep_array''] = []"
    by (simp_all add: remaining_args_def)
  have c: "fst (rjget ?env ''doc'' ''a'' JUndefined [JStr ''empty_array_null'']
                  (start [JStr ''[]''])) = Inr JNull"
    unfolding rjget_no_fallback_function [OF disjI1 [OF plain(1)]]
    by (simp add: get_defs script_defs dispatch_defs)
  have d: "fst (rjget ?env ''doc'' ''a'' JUndefined [JStr ''keep_array'']
                  (start [JStr ''[7]''])) = Inr (JArr [JNum 7])"
    unfolding rjget_no_fallback_function [OF disjI1 [OF plain(2)]]
    by (simp add: get_defs script_defs dispatch_defs)
  from a b c d show ?thesis by simp
qed

text \<open>
  C6: a get without callback and without fallback function (no trailing argument is left
  after the option tokens, or the first one left is no function). A \<open>null\<close> reply (missing
  key) gives \<open>null\<close>; a reply that parses to the empty array (absent path) gives the empty
  array, or \<open>null\<close> with \<open>empty_array_null\<close>; a reply that parses to a one-element array
  gives the element, or the array itself with \<open>keep_array\<close>.
\<close>

theorem rjget_results:
  assumes "\<not> is_function callback"
    and "remaining_args rest_args = [] \<or> \<not> is_function (hd (remaining_args rest_args))"
    and "client env (RawCall ''JSON.GET'' [JStr (rpfx (redisHprefix env) hkey), JStr (rjpath path)])
           (world s) = (Inr reply, w)"
  shows "(reply = JNull \<longrightarrow> fst (rjget env hkey path callback rest_args s) = Inr JNull)
       \<and> (\<forall>t. reply = JStr t \<and> JSON_parse env t = Some (JArr []) \<longrightarrow>
             fst (rjget env hkey path callback rest_args s) =
               Inr (if JStr ''empty_array_null'' \<in> set rest_args then JNull else JArr []))
       \<and> (\<forall>t x. reply = JStr t \<and> JSON_parse env t = Some (JArr [x]) \<longrightarrow>
             fst (rjget env hkey path callback rest_args s) =
               Inr (if JStr ''keep_array'' \<in> set rest_args then JArr [x] else x))"
  unfolding rjget_no_fallback_function [OF assms(2)]
  by (simp add: rjget_res_plain [OF assms(1) assms(3)] get_options_def)

text \<open>
  C6, an instance: the replies \<open>[7]\<close>, \<open>[]\<close> and \<open>null\<close>, with and without the option
  tokens.
\<close>

theorem rjget_results_witness:
  "remaining_args [JStr ''keep_array''] = []
   \<and> fst (rjget (script_env ''p:'') ''doc'' ''a'' JUndefined [JStr ''keep_array'']
            (start [JStr ''[7]''])) = Inr (JArr [JNum 7])
   \<and> fst (rjget (script_env ''p:'') ''doc'' ''a'' JUndefined [] (start [JStr ''[7]''])) = Inr (JNum 7)
   \<and> fst (rjget (script_env ''p:'') ''doc'' ''a'' JUndefined [] (start [JStr ''[]''])) = Inr (JArr [])
   \<and> fst (rjget (script_env ''p:'') ''doc'' ''a'' JUndefined [JStr ''empty_array_null'']
            (start [JStr ''[]''])) = Inr JNull
   \<and> fst (rjget (script_env ''p:'') ''doc'' ''a'' JUndefined [] (start [JNull])) = Inr JNull"
proof -
  have nf: "\<not> is_function JUndefined" by simp
  have r: "remaining_args [JStr ''keep_array''] = []" "remaining_args [] = []"
    "remaining_args [JStr ''empty_array_null''] = []"
    by (simp_all add: remaining_args_def)
  have c: "client (script_env ''p:'')
             (RawCall ''JSON.GET'' [JStr (rpfx (redisHprefix (script_env ''p:'')) ''doc''),
                                    JStr (rjpath ''a'')])
             (world (start [v])) = (Inr v, [])" for v
    by (simp add: script_defs)
  from rjget_results [OF nf disjI1 [OF r(1)] c, of "JStr ''[7]''"]
       rjget_results [OF nf disjI1 [OF r(2)] c, of "JStr ''[7]''"]
       rjget_results [OF nf disjI1 [OF r(2)] c, of "JStr ''[]''"]
       rjget_results [OF nf disjI1 [OF r(3)] c, of "JStr ''[]''"]
       rjget_results [OF nf disjI1 [OF r(2)] c, of JNull] r(1)
  show ?thesis
    by (simp add: script_defs)
qed

end
